theory Spec2Isabelle
  imports Main "HOL-Library.AList" "HOL-Library.Word"
begin

section \<open>Data model of \<open>src/cli.ts\<close>\<close>

text \<open>
  Strings of the program are modelled as \<^typ>\<open>string\<close>: a \<^typ>\<open>char\<close> stands for one
  code unit of a JavaScript string, restricted to the code units below 256.
  An optional property (\<open>etag?: string\<close>) is an \<^typ>\<open>'a option\<close>: \<open>None\<close> is
  \<open>undefined\<close>, whether the property is missing or holds \<open>undefined\<close>; the program reads
  both the same way.
\<close>

text \<open>
  A release identifier is a JavaScript number. The numbers of this model are the integers
  from \<open>-2^53\<close> to \<open>2^53 - 1\<close>, each of which a number holds exactly and prints in full
  (a signed word of 54 bits, read by \<^const>\<open>sint\<close>), and the two infinities, to which
  \<open>JSON.parse\<close> reads a number token of too large a magnitude. \<open>NaN\<close> is not among the
  numbers that come from a JSON text. The other numbers (fractions, larger integers) are
  outside the model.
\<close>

definition exact_int :: "int \<Rightarrow> bool" where
  "exact_int i \<longleftrightarrow> - 9007199254740992 \<le> i \<and> i < 9007199254740992"

datatype number = Int54 "54 word" | PosInfinity | NegInfinity

type_synonym RepoKey = string

record Release =
  id_rel :: number
  tag_name :: string
  name :: "string option"
  html_url :: string
  published_at :: string
  body :: "string option"
  author :: "string option option"

record RepoState =
  etag :: "string option"
  lastReleaseId :: "number option"
  lastTag :: "string option"
  lastPublishedAt :: "string option"
  lastCheckedAt :: "string option"

text \<open>
  \<open>Record<RepoKey, RepoState>\<close> is a JavaScript object: its keys are distinct and keep the
  order in which they were first stored (a \<open>RepoKey\<close> holds a \<open>/\<close>: it is never an array
  index, which an object would keep before its other keys). An assignment \<open>state.repos[repo] = v\<close> replaces the
  value in place when the key is there and appends the key otherwise, which is
  \<^const>\<open>AList.update\<close>; a read \<open>state.repos[repo]\<close> is \<^const>\<open>map_of\<close>.
\<close>

record StateFile =
  repos :: "(RepoKey \<times> RepoState) list"

text \<open>The object literal \<open>{}\<close> read as a \<open>RepoState\<close>.\<close>

definition empty_RepoState :: RepoState where
  "empty_RepoState =
     \<lparr>etag = None, lastReleaseId = None, lastTag = None, lastPublishedAt = None,
      lastCheckedAt = None\<rparr>"

text \<open>A thrown \<open>Error\<close> with its message.\<close>

datatype error = Error string

text \<open>
  The parsed command line (\<open>args.values\<close>, without \<open>help\<close>: the program exits on it before
  anything else) and the validated environment; an absent flag is \<open>False\<close>.
\<close>

record Args =
  repo_arg :: "string list option"
  config_file :: "string option"
  state_file :: "string option"
  dry_run :: bool
  force :: bool

record Env =
  GITHUB_TOKEN :: "string option"
  MAIL_TO :: string
  MAIL_FROM :: string
  RESEND_API_KEY :: "string option"
  SMTP_HOST :: "string option"

definition GITHUB_API_VERSION :: string where
  "GITHUB_API_VERSION = ''2022-11-28''"


section \<open>String helpers of the runtime\<close>

text \<open>\<open>s.split(c)\<close> for a one-character separator: never empty, \<open>''''.split(c) = ['''']\<close>.\<close>

fun str_split :: "char \<Rightarrow> string \<Rightarrow> string list" where
  "str_split c [] = [[]]"
| "str_split c (x # xs) =
     (if x = c then [] # str_split c xs
      else (case str_split c xs of
              [] \<Rightarrow> [[x]]
            | y # ys \<Rightarrow> (x # y) # ys))"

text \<open>
  The white space that \<open>trim()\<close> removes, among the code units below 256: TAB, LF, VT, FF,
  CR, SPACE and NBSP.
\<close>

definition is_space :: "char \<Rightarrow> bool" where
  "is_space c \<longleftrightarrow> of_char c \<in> {9::nat, 10, 11, 12, 13, 32, 160}"

definition trim :: "string \<Rightarrow> string" where
  "trim s = rev (dropWhile is_space (rev (dropWhile is_space s)))"

definition startsWith :: "string \<Rightarrow> string \<Rightarrow> bool" where
  "startsWith s p \<longleftrightarrow> take (length p) s = p"

text \<open>
  Decimal rendering of an integer, as a template literal and \<open>JSON.stringify\<close> render a
  number that is an integer below \<open>10^21\<close> in magnitude. It is applied to the status
  of a response, which is below \<open>2^16\<close>, and to the integers from \<open>-2^53\<close> to \<open>2^53 - 1\<close>.
\<close>

definition digit_char :: "nat \<Rightarrow> char" where
  "digit_char d = char_of (48 + d)"

fun digits :: "nat \<Rightarrow> string" where
  "digits n = (if n < 10 then [digit_char n] else digits (n div 10) @ [digit_char (n mod 10)])"

declare digits.simps [simp del]

definition show_int :: "int \<Rightarrow> string" where
  "show_int i = (if i < 0 then CHR ''-'' # digits (nat (- i)) else digits (nat i))"

section \<open>JSON documents\<close>

text \<open>
  The state file and the config file are JSON documents, written with
  \<open>JSON.stringify(value, null, 2)\<close> and read with \<open>JSON.parse\<close>. Both are functions of the
  runtime; this section models them. An object is the list of its properties in the
  order in which they were first set (the keys of the documents of this program are never
  array indices, which JavaScript would sort first). The values of the model hold
  integers from \<open>-2^53\<close> to \<open>2^53 - 1\<close> and strings of code units below 256. The reader
  accepts every JSON text; where a text holds a token whose value the model does not hold
  (a number with a fraction or an exponent, an integer outside that range, \<open>-0\<close>, a string
  with an escape \<open>\uXXXX\<close> of a code unit above 255), it reads on to the end and answers
  that the text is valid and its value outside the model.
\<close>

datatype json =
  JNull
| JBool bool
| JNum "54 word"
| JStr string
| JArr "json list"
| JObj "(string \<times> json) list"

subsection \<open>Reading\<close>

text \<open>White space between tokens: space, TAB, LF and CR.\<close>

definition is_ws :: "char \<Rightarrow> bool" where
  "is_ws c \<longleftrightarrow> c = CHR '' '' \<or> c = CHR 0x09 \<or> c = CHR 0x0A \<or> c = CHR 0x0D"

definition skip_ws :: "string \<Rightarrow> string" where
  "skip_ws s = dropWhile is_ws s"

definition is_digit :: "char \<Rightarrow> bool" where
  "is_digit c \<longleftrightarrow> (48::nat) \<le> of_char c \<and> of_char c \<le> (57::nat)"

definition digit_val :: "char \<Rightarrow> nat" where
  "digit_val c = of_char c - 48"

definition hex_val :: "char \<Rightarrow> nat option" where
  "hex_val c =
     (let n = (of_char c :: nat)
      in if 48 \<le> n \<and> n \<le> 57 then Some (n - 48)
         else if 97 \<le> n \<and> n \<le> 102 then Some (n - 87)
         else if 65 \<le> n \<and> n \<le> 70 then Some (n - 55)
         else None)"

text \<open>The character that follows a backslash in a string, and the character it stands for.\<close>

definition unescape :: "char \<Rightarrow> char option" where
  "unescape e =
     (if e = CHR 0x22 then Some (CHR 0x22)
      else if e = CHR 0x5C then Some (CHR 0x5C)
      else if e = CHR ''/'' then Some (CHR ''/'')
      else if e = CHR ''b'' then Some (CHR 0x08)
      else if e = CHR ''f'' then Some (CHR 0x0C)
      else if e = CHR ''n'' then Some (CHR 0x0A)
      else if e = CHR ''r'' then Some (CHR 0x0D)
      else if e = CHR ''t'' then Some (CHR 0x09)
      else None)"

definition hex4 :: "string \<Rightarrow> nat option" where
  "hex4 s =
     (case map hex_val s of
        [Some a, Some b, Some c, Some d] \<Rightarrow> Some (((a * 16 + b) * 16 + c) * 16 + d)
      | _ \<Rightarrow> None)"

text \<open>
  The characters of a string after its opening quote, up to the closing quote: the string
  and the text that follows it. A control character must be escaped. The string is \<open>None\<close>
  when it holds an escape \<open>\uXXXX\<close> of a code unit above 255.
\<close>

fun parse_chars :: "string \<Rightarrow> (string option \<times> string) option" where
  "parse_chars [] = None"
| "parse_chars (c # cs) =
     (if c = CHR 0x22 then Some (Some [], cs)
      else if c = CHR 0x5C then
        (case cs of
           [] \<Rightarrow> None
         | e # cs' \<Rightarrow>
             if e = CHR ''u'' then
               (case hex4 (take 4 cs') of
                  None \<Rightarrow> None
                | Some n \<Rightarrow>
                    map_option
                      (\<lambda>(str, rest).
                         (if n < 256 then map_option (\<lambda>t. char_of n # t) str else None, rest))
                      (parse_chars (drop 4 cs')))
             else
               (case unescape e of
                  None \<Rightarrow> None
                | Some ch \<Rightarrow>
                    map_option (\<lambda>(str, rest). (map_option (\<lambda>t. ch # t) str, rest))
                      (parse_chars cs')))
      else if (of_char c :: nat) < 32 then None
      else map_option (\<lambda>(str, rest). (map_option (\<lambda>t. c # t) str, rest)) (parse_chars cs))"

definition nat_of_digits :: "string \<Rightarrow> nat" where
  "nat_of_digits ds = foldl (\<lambda>n c. 10 * n + digit_val c) 0 ds"

text \<open>The integer part of a number: \<open>0\<close>, or digits that do not start with \<open>0\<close>.\<close>

definition parse_nat :: "string \<Rightarrow> (nat \<times> string) option" where
  "parse_nat s =
     (case s of
        [] \<Rightarrow> None
      | c # cs \<Rightarrow>
          if c = CHR ''0'' then Some (0, cs)
          else if is_digit c then Some (nat_of_digits (takeWhile is_digit s), dropWhile is_digit s)
          else None)"

text \<open>The fraction of a number, if there is one: a point and at least one digit.\<close>

definition parse_fraction :: "string \<Rightarrow> (bool \<times> string) option" where
  "parse_fraction s =
     (case s of
        [] \<Rightarrow> Some (False, s)
      | c # cs \<Rightarrow>
          if c = CHR ''.'' then
            (if takeWhile is_digit cs = [] then None else Some (True, dropWhile is_digit cs))
          else Some (False, s))"

text \<open>The exponent of a number, if there is one: \<open>e\<close> or \<open>E\<close>, a sign or none, and at
  least one digit.\<close>

definition parse_exponent :: "string \<Rightarrow> (bool \<times> string) option" where
  "parse_exponent s =
     (case s of
        [] \<Rightarrow> Some (False, s)
      | c # cs \<Rightarrow>
          if c = CHR ''e'' \<or> c = CHR ''E'' then
            (let ds = (case cs of
                         [] \<Rightarrow> []
                       | sign # t \<Rightarrow> if sign = CHR ''+'' \<or> sign = CHR ''-'' then t else cs)
             in if takeWhile is_digit ds = [] then None else Some (True, dropWhile is_digit ds))
          else Some (False, s))"

text \<open>
  A number token: a minus sign or none, the integer part, a fraction or none, an
  exponent or none. Its value is \<open>None\<close> unless the token is an integer from \<open>-2^53\<close> to
  \<open>2^53 - 1\<close> other than \<open>-0\<close>.
\<close>

definition parse_number :: "string \<Rightarrow> (54 word option \<times> string) option" where
  "parse_number s =
     (case s of
        [] \<Rightarrow> None
      | c # cs \<Rightarrow>
          (case parse_nat (if c = CHR ''-'' then cs else s) of
             None \<Rightarrow> None
           | Some (n, s1) \<Rightarrow>
               (case parse_fraction s1 of
                  None \<Rightarrow> None
                | Some (frac, s2) \<Rightarrow>
                    (case parse_exponent s2 of
                       None \<Rightarrow> None
                     | Some (expo, s3) \<Rightarrow>
                         let i = (if c = CHR ''-'' then - int n else int n)
                         in Some (if frac \<or> expo \<or> (c = CHR ''-'' \<and> n = 0) \<or> \<not> exact_int i
                                  then None else Some (word_of_int i),
                                  s3)))))"

text \<open>Each of these readers consumes at least one character.\<close>

lemma length_skip_ws: "length (skip_ws s) \<le> length s"
  by (simp add: skip_ws_def length_dropWhile_le)

lemma parse_chars_shorter: "parse_chars s = Some (str, rest) \<Longrightarrow> length rest < length s"
proof (induction s arbitrary: str rest rule: parse_chars.induct)
  case 1
  then show ?case by simp
next
  case (2 c cs)
  show ?case
  proof (cases "c = CHR 0x22")
    case True
    with "2.prems" show ?thesis by auto
  next
    case nq: False
    show ?thesis
    proof (cases "c = CHR 0x5C")
      case False
      with nq "2.prems" "2.IH"(3) show ?thesis
        by (fastforce split: if_splits)
    next
      case bs: True
      show ?thesis
      proof (cases cs)
        case Nil
        with nq bs "2.prems" show ?thesis by simp
      next
        case (Cons e cs')
        show ?thesis
        proof (cases "e = CHR ''u''")
          case True
          with nq bs Cons "2.prems" obtain n str' where
            n: "hex4 (take 4 cs') = Some n" and
            p: "parse_chars (drop 4 cs') = Some (str', rest)"
            by (auto split: option.splits)
          from "2.IH"(1) [OF nq bs Cons True n] p have "length rest < length (drop 4 cs')"
            by simp
          with Cons show ?thesis by simp
        next
          case False
          with nq bs Cons "2.prems" obtain ch str' where
            u: "unescape e = Some ch" and
            p: "parse_chars cs' = Some (str', rest)"
            by (auto split: option.splits)
          from "2.IH"(2) [OF nq bs Cons False u] p have "length rest < length cs'"
            by simp
          with Cons show ?thesis by simp
        qed
      qed
    qed
  qed
qed

lemma parse_nat_shorter: "parse_nat s = Some (n, rest) \<Longrightarrow> length rest < length s"
  by (cases s)
     (auto simp: parse_nat_def split: if_splits intro: le_imp_less_Suc length_dropWhile_le)

lemma parse_fraction_shorter: "parse_fraction s = Some (b, rest) \<Longrightarrow> length rest \<le> length s"
  by (cases s)
     (auto simp: parse_fraction_def split: if_splits intro: le_SucI length_dropWhile_le)

lemma parse_exponent_shorter: "parse_exponent s = Some (b, rest) \<Longrightarrow> length rest \<le> length s"
proof (cases s)
  case Nil
  then show "parse_exponent s = Some (b, rest) \<Longrightarrow> length rest \<le> length s"
    by (simp add: parse_exponent_def)
next
  case (Cons c cs)
  assume p: "parse_exponent s = Some (b, rest)"
  show "length rest \<le> length s"
  proof (cases "c = CHR ''e'' \<or> c = CHR ''E''")
    case False
    with p Cons show ?thesis by (auto simp: parse_exponent_def)
  next
    case True
    let ?ds = "case cs of [] \<Rightarrow> [] | sign # t \<Rightarrow> if sign = CHR ''+'' \<or> sign = CHR ''-'' then t else cs"
    have "length ?ds \<le> length cs" by (cases cs) simp_all
    moreover from p Cons True have "rest = dropWhile is_digit ?ds"
      by (auto simp: parse_exponent_def Let_def split: if_splits)
    moreover have "length (dropWhile is_digit ?ds) \<le> length ?ds" by (rule length_dropWhile_le)
    ultimately show ?thesis using Cons by simp
  qed
qed

lemma parse_number_shorter:
  assumes "parse_number s = Some (v, rest)"
  shows "length rest < length s"
proof (cases s)
  case Nil
  with assms show ?thesis by (simp add: parse_number_def)
next
  case (Cons c cs)
  with assms obtain n s1 frac s2 expo where
    a: "parse_nat (if c = CHR ''-'' then cs else s) = Some (n, s1)" and
    b: "parse_fraction s1 = Some (frac, s2)" and
    c: "parse_exponent s2 = Some (expo, rest)"
    by (auto simp: parse_number_def Let_def split: option.splits)
  from parse_nat_shorter [OF a] Cons have "length s1 < length s" by (auto split: if_splits)
  with parse_fraction_shorter [OF b] parse_exponent_shorter [OF c] show ?thesis by simp
qed

text \<open>
  A value, the members of an object after its opening brace, and the elements of an array
  after its opening bracket; each returns what it read and the text that follows. What
  was read is \<open>None\<close> when it holds a token outside the model. A property that occurs again
  replaces the value of its first occurrence, in place. The tests on the lengths are
  there for the termination proof: a value is never read from no text (\<open>parse_shorter\<close>
  below), so they never fail.
\<close>

definition add_member ::
  "(string \<times> json) list option \<Rightarrow> string option \<Rightarrow> json option \<Rightarrow> (string \<times> json) list option" where
  "add_member acc k v =
     (case (acc, k, v) of
        (Some kvs, Some key, Some val) \<Rightarrow> Some (AList.update key val kvs)
      | _ \<Rightarrow> None)"

definition add_element :: "json list option \<Rightarrow> json option \<Rightarrow> json list option" where
  "add_element acc v =
     (case (acc, v) of
        (Some vs, Some val) \<Rightarrow> Some (vs @ [val])
      | _ \<Rightarrow> None)"

function parse_value :: "string \<Rightarrow> (json option \<times> string) option"
  and parse_members ::
    "(string \<times> json) list option \<Rightarrow> string \<Rightarrow> ((string \<times> json) list option \<times> string) option"
  and parse_elements :: "json list option \<Rightarrow> string \<Rightarrow> (json list option \<times> string) option"
where
  "parse_value s =
     (case skip_ws s of
        [] \<Rightarrow> None
      | c # cs \<Rightarrow>
          if c = CHR ''{'' then
            (case skip_ws cs of
               [] \<Rightarrow> None
             | d # ds \<Rightarrow>
                 if d = CHR ''}'' then Some (Some (JObj []), ds)
                 else map_option (\<lambda>(kvs, rest). (map_option JObj kvs, rest))
                        (parse_members (Some []) cs))
          else if c = CHR ''['' then
            (case skip_ws cs of
               [] \<Rightarrow> None
             | d # ds \<Rightarrow>
                 if d = CHR '']'' then Some (Some (JArr []), ds)
                 else map_option (\<lambda>(vs, rest). (map_option JArr vs, rest))
                        (parse_elements (Some []) cs))
          else if c = CHR 0x22
          then map_option (\<lambda>(str, rest). (map_option JStr str, rest)) (parse_chars cs)
          else if take 4 (c # cs) = ''true'' then Some (Some (JBool True), drop 4 (c # cs))
          else if take 5 (c # cs) = ''false'' then Some (Some (JBool False), drop 5 (c # cs))
          else if take 4 (c # cs) = ''null'' then Some (Some JNull, drop 4 (c # cs))
          else map_option (\<lambda>(i, rest). (map_option JNum i, rest)) (parse_number (c # cs)))"
| "parse_members acc s =
     (case skip_ws s of
        [] \<Rightarrow> None
      | q # cs \<Rightarrow>
          if q \<noteq> CHR 0x22 then None
          else
            (case parse_chars cs of
               None \<Rightarrow> None
             | Some (k, s1) \<Rightarrow>
                 (case skip_ws s1 of
                    [] \<Rightarrow> None
                  | colon # s2 \<Rightarrow>
                      if colon \<noteq> CHR '':'' then None
                      else
                        (case parse_value s2 of
                           None \<Rightarrow> None
                         | Some (v, s3) \<Rightarrow>
                             if length s2 \<le> length s3 then None
                             else
                               (case skip_ws s3 of
                                  [] \<Rightarrow> None
                                | d # s4 \<Rightarrow>
                                    if d = CHR '','' then parse_members (add_member acc k v) s4
                                    else if d = CHR ''}'' then Some (add_member acc k v, s4)
                                    else None)))))"
| "parse_elements acc s =
     (case parse_value s of
        None \<Rightarrow> None
      | Some (v, s3) \<Rightarrow>
          if length s \<le> length s3 then None
          else
            (case skip_ws s3 of
               [] \<Rightarrow> None
             | d # s4 \<Rightarrow>
                 if d = CHR '','' then parse_elements (add_element acc v) s4
                 else if d = CHR '']'' then Some (add_element acc v, s4)
                 else None))"
  by pat_completeness auto
termination
proof (relation "measure (\<lambda>x. case x of
          Inl s \<Rightarrow> 2 * length s
        | Inr (Inl (acc, s)) \<Rightarrow> 2 * length s + 1
        | Inr (Inr (acc, s)) \<Rightarrow> 2 * length s + 1)", goal_cases)
  case 1
  show ?case by simp
next
  case (2 s c cs d ds)
  from length_skip_ws [of s] 2 show ?case by simp
next
  case (3 s c cs d ds)
  from length_skip_ws [of s] 3 show ?case by simp
next
  case (4 acc s q cs k_s1 k s1 colon s2)
  from length_skip_ws [of s] length_skip_ws [of s1] parse_chars_shorter [of cs k s1] 4
  show ?case by simp
next
  case (5 acc s q cs k_s1 k s1 colon s2 v_s3 v s3 d s4)
  from length_skip_ws [of s] length_skip_ws [of s1] length_skip_ws [of s3]
    parse_chars_shorter [of cs k s1] 5
  show ?case by simp
next
  case (6 acc s)
  show ?case by simp
next
  case (7 acc s v_s3 v s3 d s4)
  from length_skip_ws [of s3] 7 show ?case by simp
qed

declare parse_value.simps [simp del] parse_members.simps [simp del] parse_elements.simps [simp del]



subsection \<open>Writing\<close>

definition hex_char :: "nat \<Rightarrow> char" where
  "hex_char d = (if d < 10 then char_of (48 + d) else char_of (87 + d))"

text \<open>How a character of a string is written between the quotes.\<close>

definition escape_char :: "char \<Rightarrow> string" where
  "escape_char c =
     (if c = CHR 0x22 then [CHR 0x5C, CHR 0x22]
      else if c = CHR 0x5C then [CHR 0x5C, CHR 0x5C]
      else if c = CHR 0x08 then [CHR 0x5C, CHR ''b'']
      else if c = CHR 0x0C then [CHR 0x5C, CHR ''f'']
      else if c = CHR 0x0A then [CHR 0x5C, CHR ''n'']
      else if c = CHR 0x0D then [CHR 0x5C, CHR ''r'']
      else if c = CHR 0x09 then [CHR 0x5C, CHR ''t'']
      else if (of_char c :: nat) < 32
      then [CHR 0x5C, CHR ''u'', CHR ''0'', CHR ''0'',
            hex_char (of_char c div 16), hex_char (of_char c mod 16)]
      else [c])"

definition quote :: "string \<Rightarrow> string" where
  "quote s = CHR 0x22 # concat (map escape_char s) @ [CHR 0x22]"

fun join :: "string \<Rightarrow> string list \<Rightarrow> string" where
  "join sep [] = []"
| "join sep [x] = x"
| "join sep (x # y # ys) = x @ sep @ join sep (y # ys)"

text \<open>The indentation unit of \<open>JSON.stringify(value, null, 2)\<close>.\<close>

definition gap :: string where
  "gap = ''  ''"

text \<open>
  A value written at the indentation \<open>ind\<close>: an empty object is \<open>{}\<close>; any other object has
  one property per line, one unit deeper, separated by commas, and its closing brace on a
  line of its own at \<open>ind\<close>. Arrays likewise.
\<close>

fun str_value :: "string \<Rightarrow> json \<Rightarrow> string"
  and str_members :: "string \<Rightarrow> (string \<times> json) list \<Rightarrow> string list"
  and str_elements :: "string \<Rightarrow> json list \<Rightarrow> string list"
where
  "str_value ind JNull = ''null''"
| "str_value ind (JBool b) = (if b then ''true'' else ''false'')"
| "str_value ind (JNum i) = show_int (sint i)"
| "str_value ind (JStr s) = quote s"
| "str_value ind (JArr vs) =
     (if vs = [] then ''[]''
      else ''['' @ [CHR 0x0A] @ (ind @ gap)
           @ join ('','' @ [CHR 0x0A] @ (ind @ gap)) (str_elements (ind @ gap) vs)
           @ [CHR 0x0A] @ ind @ '']'')"
| "str_value ind (JObj kvs) =
     (if kvs = [] then ''{}''
      else ''{'' @ [CHR 0x0A] @ (ind @ gap)
           @ join ('','' @ [CHR 0x0A] @ (ind @ gap)) (str_members (ind @ gap) kvs)
           @ [CHR 0x0A] @ ind @ ''}'')"
| "str_members ind [] = []"
| "str_members ind (kv # kvs) =
     (quote (fst kv) @ '':'' @ '' '' @ str_value ind (snd kv)) # str_members ind kvs"
| "str_elements ind [] = []"
| "str_elements ind (v # vs) = str_value ind v # str_elements ind vs"



text \<open>Notions for the statements about reading back what was written.\<close>

definition num_end :: "string \<Rightarrow> bool" where
  "num_end rest \<longleftrightarrow>
     (case rest of [] \<Rightarrow> True
      | c # _ \<Rightarrow> \<not> is_digit c \<and> c \<noteq> CHR ''.'' \<and> c \<noteq> CHR ''e'' \<and> c \<noteq> CHR ''E'')"

definition all_ws :: "string \<Rightarrow> bool" where
  "all_ws s \<longleftrightarrow> (\<forall>c \<in> set s. is_ws c)"


section \<open>State store\<close>

















section \<open>Repository identifiers\<close>

text \<open>
  \<open>const [owner, repo] = input.split('/')\<close> binds the first two segments, \<open>undefined\<close> where
  the array is shorter; \<open>!owner\<close> holds for \<open>undefined\<close> and for the empty string.
\<close>

definition parseRepo :: "string \<Rightarrow> error + RepoKey" where
  "parseRepo input =
     (case str_split CHR ''/'' input of
        owner # repo # _ \<Rightarrow>
          if owner = [] \<or> repo = []
          then Inl (Error (''Invalid repo: '' @ input @ ''. Expected owner/name.''))
          else Inr (owner @ ''/'' @ repo)
      | _ \<Rightarrow> Inl (Error (''Invalid repo: '' @ input @ ''. Expected owner/name.'')))"

definition listifyTo :: "string \<Rightarrow> string list" where
  "listifyTo to = filter (\<lambda>part. part \<noteq> []) (map trim (str_split CHR '','' to))"

definition formatGithubAuthorization :: "string \<Rightarrow> string" where
  "formatGithubAuthorization token =
     (let trimmed = trim token;
          patPrefixes = [''ghp_'', ''gho_'', ''ghu_'', ''ghs_'', ''ghr_'']
      in if list_ex (\<lambda>prefix. startsWith trimmed prefix) patPrefixes
         then ''token '' @ trimmed
         else ''Bearer '' @ trimmed)"

section \<open>Collaborators\<close>

text \<open>
  What one pass of the loop receives from outside the program: the HTTP exchange \<open>fetch\<close>
  (a rejection or a response), the rendering of the notification (\<open>renderEmail\<close>, pure
  templating that always returns), the two mail transports, and the reading of the clock
  \<open>new Date().toISOString()\<close>. Every pass of the loop has collaborators of its own, so
  that the outside may answer differently each time.
\<close>

record Request =
  req_url :: string
  req_headers :: "(string \<times> string) list"

record Response =
  status :: "16 word"
  resp_text :: "error + string"
  resp_json :: "error + Release"
  resp_headers :: "string \<rightharpoonup> string"

record Rendered =
  subject :: string
  html :: string
  text_r :: string

record MailInput =
  to_m :: "string list"
  from_m :: string
  subject_m :: string
  html_m :: string
  text_m :: "string option"

record World =
  fetch :: "Request \<Rightarrow> error + Response"
  renderEmail :: "RepoKey \<Rightarrow> Release \<Rightarrow> Rendered"
  resend_send :: "MailInput \<Rightarrow> error + string option"
  smtp_sendMail :: "MailInput \<Rightarrow> error + unit"
  now :: string

section \<open>Release fetcher\<close>

text \<open>
  Of the response the program reads the status (an \<open>unsigned short\<close>: a word of 16
  bits, read by \<^const>\<open>uint\<close>), \<open>ok\<close> (the status is in 200..299), the
  body as text (\<open>resp.text()\<close> rejects when the body cannot be read), the body parsed as
  a \<open>Release\<close> (\<open>resp.json()\<close> rejects when the body cannot be read or is not JSON) and
  the \<open>etag\<close> header.
\<close>

definition ok :: "Response \<Rightarrow> bool" where
  "ok resp \<longleftrightarrow> 200 \<le> status resp \<and> status resp \<le> 299"

datatype FetchResult =
  not_modified
| no_releases
| ok_release Release "string option"

text \<open>
  \<open>if (token) headers[k] = f(token)\<close>: a string in a condition is true when it is not
  empty, \<open>undefined\<close> is false.
\<close>

definition set_if :: "bool \<Rightarrow> string \<Rightarrow> (string \<Rightarrow> string) \<Rightarrow> string option
     \<Rightarrow> (string \<times> string) list \<Rightarrow> (string \<times> string) list" where
  "set_if enabled k f v hs =
     (case v of
        None \<Rightarrow> hs
      | Some s \<Rightarrow> if s \<noteq> [] \<and> enabled then AList.update k (f s) hs else hs)"

definition truthy :: "string option \<Rightarrow> bool" where
  "truthy v \<longleftrightarrow> (case v of None \<Rightarrow> False | Some s \<Rightarrow> s \<noteq> [])"

text \<open>The request that \<open>fetchLatestRelease\<close> builds: the URL and the headers.\<close>

definition request_for :: "Args \<Rightarrow> RepoKey \<Rightarrow> string option \<Rightarrow> string option \<Rightarrow> Request" where
  "request_for args repo token validator =
     (let url = ''https://api.github.com/repos/'' @ repo @ ''/releases/latest'';
          headers0 = [(''Accept'', ''application/vnd.github+json''),
                      (''X-GitHub-Api-Version'', GITHUB_API_VERSION),
                      (''User-Agent'', ''ghrelease-cli'')];
          headers1 = set_if True ''Authorization'' formatGithubAuthorization token headers0;
          headers2 = set_if (\<not> force args) ''If-None-Match'' (\<lambda>e. e) validator headers1
      in \<lparr>req_url = url, req_headers = headers2\<rparr>)"

definition fetchLatestRelease ::
  "Args \<Rightarrow> World \<Rightarrow> RepoKey \<Rightarrow> string option \<Rightarrow> string option \<Rightarrow> error + FetchResult" where
  "fetchLatestRelease args w repo token validator =
     (let req = request_for args repo token validator
      in case fetch w req of
           Inl e \<Rightarrow> Inl e
         | Inr resp \<Rightarrow>
             if status resp = 304 then Inr not_modified
             else if status resp = 404 then Inr no_releases
             else if \<not> ok resp
             then (case resp_text resp of
                     Inl e \<Rightarrow> Inl e
                   | Inr txt \<Rightarrow>
                       Inl (Error (''GitHub API '' @ show_int (uint (status resp)) @ '' for ''
                                   @ req_url req @ '': '' @ txt)))
             else (case resp_json resp of
                     Inl e \<Rightarrow> Inl e
                   | Inr data \<Rightarrow> Inr (ok_release data (resp_headers resp ''etag''))))"

section \<open>Notifier\<close>

text \<open>
  \<open>resend.emails.send\<close> rejects, or resolves with an optional \<open>error.message\<close>;
  \<open>transporter.sendMail\<close> rejects or resolves.
\<close>

definition sendEmail :: "Env \<Rightarrow> World \<Rightarrow> MailInput \<Rightarrow> error + unit" where
  "sendEmail env w input =
     (if truthy (RESEND_API_KEY env) then
        (case resend_send w input of
           Inl e \<Rightarrow> Inl e
         | Inr (Some message) \<Rightarrow> Inl (Error (''Resend error: '' @ message))
         | Inr None \<Rightarrow> Inr ())
      else if truthy (SMTP_HOST env) then smtp_sendMail w input
      else Inl (Error ''No email provider configured. Set RESEND_API_KEY or SMTP_* env vars.''))"

section \<open>The reconciliation loop\<close>

text \<open>The lines that the loop prints, one per repository.\<close>

datatype LogLine =
  NoChanges RepoKey
| NoPublishedReleases RepoKey
| AlreadyTracked RepoKey string number
| DryRunWouldSend RepoKey "string list" string
| EmailSent RepoKey string
| ErrorLine RepoKey string

definition isNew :: "Args \<Rightarrow> RepoState \<Rightarrow> Release \<Rightarrow> bool" where
  "isNew args repoState release \<longleftrightarrow>
     lastReleaseId repoState \<noteq> Some (id_rel release) \<or>
     lastTag repoState \<noteq> Some (tag_name release) \<or>
     force args"

text \<open>The message that the loop hands to \<open>sendEmail\<close>.\<close>

abbreviation mail_for :: "Env \<Rightarrow> World \<Rightarrow> RepoKey \<Rightarrow> Release \<Rightarrow> MailInput" where
  "mail_for env w repo release \<equiv>
     \<lparr>to_m = listifyTo (MAIL_TO env), from_m = MAIL_FROM env,
      subject_m = subject (renderEmail w repo release),
      html_m = html (renderEmail w repo release),
      text_m = Some (text_r (renderEmail w repo release))\<rparr>"

text \<open>
  The body of the \<open>try\<close> block. Each path through it ends by storing one record for the
  repository (and \<open>changed++\<close> on the last path), or throws before it stores anything; so it
  returns the calls to \<open>sendEmail\<close> it made, and then either the error thrown or the record
  to store, the line printed and whether \<open>changed\<close> is incremented.
\<close>

definition try_block ::
  "Args \<Rightarrow> Env \<Rightarrow> World \<Rightarrow> RepoKey \<Rightarrow> RepoState
     \<Rightarrow> MailInput list \<times> (error + RepoState \<times> LogLine \<times> bool)" where
  "try_block args env w repo repoState =
     (case fetchLatestRelease args w repo (GITHUB_TOKEN env) (etag repoState) of
        Inl e \<Rightarrow> ([], Inl e)
      | Inr not_modified \<Rightarrow>
          ([], Inr (repoState\<lparr>lastCheckedAt := Some (now w)\<rparr>, NoChanges repo, False))
      | Inr no_releases \<Rightarrow>
          ([], Inr (repoState\<lparr>lastCheckedAt := Some (now w)\<rparr>, NoPublishedReleases repo, False))
      | Inr (ok_release release new_etag) \<Rightarrow>
          if \<not> isNew args repoState release then
            ([], Inr (repoState\<lparr>etag := (case new_etag of Some e \<Rightarrow> Some e | None \<Rightarrow> etag repoState),
                                 lastCheckedAt := Some (now w)\<rparr>,
                      AlreadyTracked repo (tag_name release) (id_rel release), False))
          else
            let mail = renderEmail w repo release;
                to = listifyTo (MAIL_TO env);
                from = MAIL_FROM env;
                stored = \<lparr>etag = new_etag,
                          lastReleaseId = Some (id_rel release),
                          lastTag = Some (tag_name release),
                          lastPublishedAt = Some (published_at release),
                          lastCheckedAt = Some (now w)\<rparr>
            in if dry_run args then
                 ([], Inr (stored, DryRunWouldSend repo to (subject mail), True))
               else
                 let input = \<lparr>to_m = to, from_m = from, subject_m = subject mail,
                              html_m = html mail, text_m = Some (text_r mail)\<rparr>
                 in (case sendEmail env w input of
                       Inl e \<Rightarrow> ([input], Inl e)
                     | Inr _ \<Rightarrow> ([input], Inr (stored, EmailSent repo (tag_name release), True))))"

text \<open>
  What the run carries from one repository to the next: the state collection, the counter
  \<open>changed\<close>, the lines printed and the messages handed to \<open>sendEmail\<close>.
\<close>

record Run =
  state :: StateFile
  changed :: nat
  console :: "LogLine list"
  outbox :: "MailInput list"

text \<open>\<open>state.repos[repo] ?? {}\<close>\<close>

definition lookup_repo :: "StateFile \<Rightarrow> RepoKey \<Rightarrow> RepoState" where
  "lookup_repo s repo = (case map_of (repos s) repo of None \<Rightarrow> empty_RepoState | Some rs \<Rightarrow> rs)"

text \<open>\<open>state.repos[repo] = v\<close>\<close>

definition store_repo :: "RepoKey \<Rightarrow> RepoState \<Rightarrow> StateFile \<Rightarrow> StateFile" where
  "store_repo repo v s = s\<lparr>repos := AList.update repo v (repos s)\<rparr>"

text \<open>One pass of the \<open>for\<close> loop: the \<open>try\<close> block and its \<open>catch\<close>.\<close>

definition loop_body :: "Args \<Rightarrow> Env \<Rightarrow> World \<Rightarrow> Run \<Rightarrow> RepoKey \<Rightarrow> Run" where
  "loop_body args env w r repo =
     (let repoState = lookup_repo (state r) repo
      in case try_block args env w repo repoState of
           (mails, Inr (stored, line, notified)) \<Rightarrow>
             r\<lparr>state := store_repo repo stored (state r),
               changed := (if notified then changed r + 1 else changed r),
               console := console r @ [line],
               outbox := outbox r @ mails\<rparr>
         | (mails, Inl (Error message)) \<Rightarrow>
             r\<lparr>state := store_repo repo (repoState\<lparr>lastCheckedAt := Some (now w)\<rparr>) (state r),
               console := console r @ [ErrorLine repo message],
               outbox := outbox r @ mails\<rparr>)"

text \<open>
  \<open>for (const repo of repos)\<close>: the pass over the \<open>i\<close>-th repository meets the collaborators
  \<open>ws i\<close>.
\<close>

fun run_loop :: "Args \<Rightarrow> Env \<Rightarrow> (nat \<Rightarrow> World) \<Rightarrow> nat \<Rightarrow> Run \<Rightarrow> RepoKey list \<Rightarrow> Run" where
  "run_loop args env ws i r [] = r"
| "run_loop args env ws i r (repo # rest) =
     run_loop args env ws (Suc i) (loop_body args env (ws i) r repo) rest"

section \<open>The run\<close>








section \<open>Sample inputs\<close>

text \<open>Concrete values on which the theorems below are instantiated.\<close>

definition sample_release :: Release where
  "sample_release =
     \<lparr>id_rel = Int54 10, tag_name = ''v1.0.0'', name = None,
      html_url = ''https://github.com/octo/demo/releases/tag/v1.0.0'',
      published_at = ''2024-01-01T00:00:00Z'', body = None, author = None\<rparr>"

definition sample_args :: Args where
  "sample_args =
     \<lparr>repo_arg = Some [''octo/demo''], config_file = None, state_file = None,
      dry_run = False, force = False\<rparr>"

definition sample_env :: Env where
  "sample_env =
     \<lparr>GITHUB_TOKEN = None, MAIL_TO = ''dev@example.com'', MAIL_FROM = ''bot@example.com'',
      RESEND_API_KEY = None, SMTP_HOST = Some ''smtp.example.com''\<rparr>"

text \<open>
  Collaborators that answer every request with \<open>answer\<close>, whose SMTP transport answers
  \<open>sent\<close>, and whose clock reads \<open>t\<close>.
\<close>

definition sample_world :: "(error + Response) \<Rightarrow> (error + unit) \<Rightarrow> string \<Rightarrow> World" where
  "sample_world answer sent t =
     \<lparr>fetch = (\<lambda>_. answer),
      renderEmail = (\<lambda>repo release.
         \<lparr>subject = ''New release: '' @ repo, html = tag_name release, text_r = tag_name release\<rparr>),
      resend_send = (\<lambda>_. Inr None),
      smtp_sendMail = (\<lambda>_. sent),
      now = t\<rparr>"

text \<open>A 200 response carrying a release and an optional \<open>etag\<close> header.\<close>

definition found :: "Release \<Rightarrow> string option \<Rightarrow> error + Response" where
  "found release v =
     Inr \<lparr>status = 200, resp_text = Inr [], resp_json = Inr release,
          resp_headers = (\<lambda>h. if h = ''etag'' then v else None)\<rparr>"

text \<open>A response with a status and a body that is not a release.\<close>

definition answered :: "16 word \<Rightarrow> string \<Rightarrow> error + Response" where
  "answered st txt =
     Inr \<lparr>status = st, resp_text = Inr txt, resp_json = Inl (Error ''Unexpected token''),
          resp_headers = (\<lambda>h. None)\<rparr>"

text \<open>A state collection with two repositories.\<close>

definition sample_state :: StateFile where
  "sample_state =
     \<lparr>repos =
        [(''octo/demo'',
          \<lparr>etag = Some (''W/'' @ quote ''abc''), lastReleaseId = Some (Int54 10),
           lastTag = Some ''v1.0.0'', lastPublishedAt = Some ''2024-01-01T00:00:00Z'',
           lastCheckedAt = Some ''2024-01-02T00:00:00.000Z''\<rparr>),
         (''octo/empty'',
          \<lparr>etag = None, lastReleaseId = None, lastTag = None, lastPublishedAt = None,
           lastCheckedAt = Some ''2024-01-02T00:00:01.000Z''\<rparr>)]\<rparr>"



text \<open>The run before its first repository, with no stored state.\<close>

definition sample_run :: Run where
  "sample_run = \<lparr>state = \<lparr>repos = []\<rparr>, changed = 0, console = [], outbox = []\<rparr>"

text \<open>
  Three passes: the first and the third find a release, the second is answered with a
  status 500.
\<close>

definition sample_worlds :: "nat \<Rightarrow> World" where
  "sample_worlds i =
     (if i = 0 then sample_world (found sample_release (Some ''W/1'')) (Inr ()) ''t0''
      else if i = 1 then sample_world (answered 500 ''Server Error'') (Inr ()) ''t1''
      else sample_world (found sample_release None) (Inr ()) ''t2'')"



section \<open>Properties\<close>

subsection \<open>Splitting at a separator\<close>

lemma str_split_unfold:
  "str_split c s =
     takeWhile (\<lambda>x. x \<noteq> c) s #
     (case dropWhile (\<lambda>x. x \<noteq> c) s of [] \<Rightarrow> [] | _ # rest \<Rightarrow> str_split c rest)"
proof (induction s)
  case Nil
  show ?case by simp
next
  case (Cons x s)
  show ?case
  proof (cases "x = c")
    case True
    then show ?thesis by simp
  next
    case False
    then show ?thesis by (subst str_split.simps) (simp add: Cons.IH)
  qed
qed

lemma takeWhile_neq: "c \<notin> set a \<Longrightarrow> takeWhile (\<lambda>x. x \<noteq> c) (a @ c # rest) = a"
  by (induction a) auto

lemma dropWhile_neq: "c \<notin> set a \<Longrightarrow> dropWhile (\<lambda>x. x \<noteq> c) (a @ c # rest) = c # rest"
  by (induction a) auto

lemma str_split_sep: "c \<notin> set a \<Longrightarrow> str_split c (a @ c # rest) = a # str_split c rest"
  by (subst str_split_unfold) (simp add: takeWhile_neq dropWhile_neq)

lemma parseRepo_char:
  "parseRepo input =
     (let owner = takeWhile (\<lambda>x. x \<noteq> CHR ''/'') input;
          after = dropWhile (\<lambda>x. x \<noteq> CHR ''/'') input;
          repo = takeWhile (\<lambda>x. x \<noteq> CHR ''/'') (tl after)
      in if owner = [] \<or> after = [] \<or> repo = []
         then Inl (Error (''Invalid repo: '' @ input @ ''. Expected owner/name.''))
         else Inr (owner @ ''/'' @ repo))"
proof (cases "dropWhile (\<lambda>x. x \<noteq> CHR ''/'') input")
  case Nil
  then have "str_split CHR ''/'' input = [takeWhile (\<lambda>x. x \<noteq> CHR ''/'') input]"
    by (subst str_split_unfold) (simp del: dropWhile_eq_Nil_conv)
  with Nil show ?thesis
    by (simp add: parseRepo_def del: dropWhile_eq_Nil_conv)
next
  case (Cons x rest)
  have "str_split CHR ''/'' rest =
          takeWhile (\<lambda>x. x \<noteq> CHR ''/'') rest #
          (case dropWhile (\<lambda>x. x \<noteq> CHR ''/'') rest of [] \<Rightarrow> [] | _ # r \<Rightarrow> str_split CHR ''/'' r)"
    by (rule str_split_unfold)
  with Cons have "\<exists>more. str_split CHR ''/'' input =
          takeWhile (\<lambda>x. x \<noteq> CHR ''/'') input # takeWhile (\<lambda>x. x \<noteq> CHR ''/'') rest # more"
    by (subst str_split_unfold) simp
  then obtain more where "str_split CHR ''/'' input =
          takeWhile (\<lambda>x. x \<noteq> CHR ''/'') input # takeWhile (\<lambda>x. x \<noteq> CHR ''/'') rest # more"
    by blast
  with Cons show ?thesis
    by (simp add: parseRepo_def del: dropWhile_eq_Nil_conv)
qed

lemma parseRepo_two:
  "a \<noteq> [] \<Longrightarrow> b \<noteq> [] \<Longrightarrow> CHR ''/'' \<notin> set a \<Longrightarrow> CHR ''/'' \<notin> set b \<Longrightarrow>
   parseRepo (a @ ''/'' @ b @ ''/'' @ rest) = Inr (a @ ''/'' @ b)"
  unfolding parseRepo_def
  by (simp add: str_split_sep)

subsection \<open>The repository-identifier parser\<close>

text \<open>
  C10. \<open>parseRepo\<close> rejects an input exactly when its first segment (the text before the
  first \<open>/\<close>) is empty, or there is no \<open>/\<close> at all, or its second segment (the text between
  the first \<open>/\<close> and the second, or the end) is empty; otherwise it returns the first two
  segments joined by \<open>/\<close>. In particular an input \<open>a/b/rest\<close> with non-empty \<open>a\<close> and \<open>b\<close>
  parses to \<open>a/b\<close>: what follows the second \<open>/\<close> is dropped without an error.
\<close>

theorem parseRepo_segments:
  "parseRepo input =
     (let owner = takeWhile (\<lambda>x. x \<noteq> CHR ''/'') input;
          after = dropWhile (\<lambda>x. x \<noteq> CHR ''/'') input;
          repo = takeWhile (\<lambda>x. x \<noteq> CHR ''/'') (tl after)
      in if owner = [] \<or> after = [] \<or> repo = []
         then Inl (Error (''Invalid repo: '' @ input @ ''. Expected owner/name.''))
         else Inr (owner @ ''/'' @ repo)) \<and>
   (a \<noteq> [] \<and> b \<noteq> [] \<and> CHR ''/'' \<notin> set a \<and> CHR ''/'' \<notin> set b \<longrightarrow>
      parseRepo (a @ ''/'' @ b @ ''/'' @ rest) = Inr (a @ ''/'' @ b))"
  using parseRepo_char [of input] parseRepo_two [of a b rest] by blast

theorem parseRepo_segments_witness:
  "parseRepo ''a/b/c'' = Inr ''a/b'' \<and>
   parseRepo ''a//c'' = Inl (Error ''Invalid repo: a//c. Expected owner/name.'') \<and>
   parseRepo ''ab'' = Inl (Error ''Invalid repo: ab. Expected owner/name.'')"
  using parseRepo_segments [of "''a/b/c''" "''a''" "''b''" "''c''"]
    parseRepo_segments [of "''a//c''" "''a''" "''b''" "''c''"]
    parseRepo_segments [of "''ab''" "''a''" "''b''" "''c''"]
  by simp

subsection \<open>The decision of the reconciler\<close>

text \<open>
  C1. When the fetch returns a release, the release is judged new exactly when its id
  differs from the stored \<open>lastReleaseId\<close>, or its tag differs from the stored \<open>lastTag\<close>,
  or \<open>--force\<close> is set. Judged new, the pass takes the notifying path (the dry-run line, or
  a call of \<open>sendEmail\<close>); otherwise it prints the already-tracked line and sends nothing.
  A repository with no stored record differs in both comparisons, and a release with a
  new id and the stored tag is new.
\<close>

theorem isNew_decision:
  assumes "fetchLatestRelease args w repo (GITHUB_TOKEN env) (etag rs) = Inr (ok_release release v)"
  shows
    "(isNew args rs release \<longleftrightarrow>
        lastReleaseId rs \<noteq> Some (id_rel release) \<or> lastTag rs \<noteq> Some (tag_name release) \<or> force args) \<and>
     (isNew args rs release \<longleftrightarrow>
        (if dry_run args
         then \<exists>stored to subj. try_block args env w repo rs =
                ([], Inr (stored, DryRunWouldSend repo to subj, True))
         else fst (try_block args env w repo rs) \<noteq> [])) \<and>
     (\<not> isNew args rs release \<longleftrightarrow>
        (\<exists>stored. try_block args env w repo rs =
           ([], Inr (stored, AlreadyTracked repo (tag_name release) (id_rel release), False)))) \<and>
     (map_of (repos s) repo = None \<longrightarrow>
        lastReleaseId (lookup_repo s repo) \<noteq> Some (id_rel release) \<and>
        lastTag (lookup_repo s repo) \<noteq> Some (tag_name release) \<and>
        isNew args (lookup_repo s repo) release) \<and>
     (lastReleaseId rs \<noteq> Some (id_rel release) \<and> lastTag rs = Some (tag_name release) \<longrightarrow>
        isNew args rs release)"
proof -
  have a: "isNew args rs release \<longleftrightarrow>
        lastReleaseId rs \<noteq> Some (id_rel release) \<or> lastTag rs \<noteq> Some (tag_name release) \<or> force args"
    by (simp add: isNew_def)
  have b: "isNew args rs release \<longleftrightarrow>
        (if dry_run args
         then \<exists>stored to subj. try_block args env w repo rs =
                ([], Inr (stored, DryRunWouldSend repo to subj, True))
         else fst (try_block args env w repo rs) \<noteq> [])"
    using assms by (simp add: try_block_def Let_def split: sum.splits)
  have c: "\<not> isNew args rs release \<longleftrightarrow>
        (\<exists>stored. try_block args env w repo rs =
           ([], Inr (stored, AlreadyTracked repo (tag_name release) (id_rel release), False)))"
    using assms by (simp add: try_block_def Let_def split: sum.splits)
  have d: "map_of (repos s) repo = None \<longrightarrow>
        lastReleaseId (lookup_repo s repo) \<noteq> Some (id_rel release) \<and>
        lastTag (lookup_repo s repo) \<noteq> Some (tag_name release) \<and>
        isNew args (lookup_repo s repo) release"
    by (simp add: lookup_repo_def empty_RepoState_def isNew_def)
  have e: "lastReleaseId rs \<noteq> Some (id_rel release) \<and> lastTag rs = Some (tag_name release) \<longrightarrow>
        isNew args rs release"
    by (simp add: isNew_def)
  from a b c d e show ?thesis by blast
qed

lemma fetch_found:
  "fetchLatestRelease args (sample_world (found release v) sent t) repo token validator =
     Inr (ok_release release v)"
  by (simp add: fetchLatestRelease_def sample_world_def found_def ok_def Let_def)

theorem isNew_decision_witness:
  "fetchLatestRelease sample_args (sample_world (found sample_release None) (Inr ()) ''t1'')
       ''octo/demo'' (GITHUB_TOKEN sample_env) (etag (lookup_repo \<lparr>repos = []\<rparr> ''octo/demo''))
     = Inr (ok_release sample_release None) \<and>
   isNew sample_args (lookup_repo \<lparr>repos = []\<rparr> ''octo/demo'') sample_release \<and>
   fst (try_block sample_args sample_env (sample_world (found sample_release None) (Inr ()) ''t1'')
          ''octo/demo'' (lookup_repo \<lparr>repos = []\<rparr> ''octo/demo'')) \<noteq> []"
proof -
  have h: "fetchLatestRelease sample_args (sample_world (found sample_release None) (Inr ()) ''t1'')
       ''octo/demo'' (GITHUB_TOKEN sample_env) (etag (lookup_repo \<lparr>repos = []\<rparr> ''octo/demo''))
     = Inr (ok_release sample_release None)"
    by (simp add: fetch_found)
  have d: "dry_run sample_args = False"
    by (simp add: sample_args_def)
  have m: "map_of (repos \<lparr>repos = []\<rparr>) ''octo/demo'' = None"
    by simp
  from isNew_decision [OF h, where s = "\<lparr>repos = []\<rparr>"] h d m show ?thesis
    by metis
qed

subsection \<open>Reading back a written document\<close>























lemma all_ws_simps [simp]:
  "all_ws []" "all_ws (c # s) \<longleftrightarrow> is_ws c \<and> all_ws s" "all_ws (s @ t) \<longleftrightarrow> all_ws s \<and> all_ws t"
  by (auto simp: all_ws_def)

lemma all_ws_gap [simp]: "all_ws gap"
  by (simp add: gap_def is_ws_def)

lemma is_ws_nl [simp]: "is_ws (CHR 0x0A)" "is_ws (CHR '' '')"
  by (simp_all add: is_ws_def)

lemma skip_ws_append: "all_ws ws \<Longrightarrow> skip_ws (ws @ s) = skip_ws s"
  by (simp add: skip_ws_def all_ws_def dropWhile_append)


lemma skip_ws_idem: "skip_ws (skip_ws s) = skip_ws s"
  by (induction s) (auto simp: skip_ws_def)


lemma parse_members_ws: "all_ws ws \<Longrightarrow> parse_members acc (ws @ s) = parse_members acc s"
  using parse_members.simps [of acc "ws @ s"] parse_members.simps [of acc s]
  by (simp add: skip_ws_append)





lemma str_members_Nil [simp]: "str_members ind kvs = [] \<longleftrightarrow> kvs = []"
  by (cases kvs) simp_all

lemma str_elements_Nil [simp]: "str_elements ind vs = [] \<longleftrightarrow> vs = []"
  by (cases vs) simp_all



















lemma num_end_nl [simp]: "num_end (CHR 0x0A # s)" "num_end (CHR '','' # s)"
  by (simp_all add: num_end_def is_digit_def)



lemma skip_ws_Cons_shorter: "skip_ws s = c # cs \<Longrightarrow> length cs < length s"
  using length_skip_ws [of s] by simp

lemma parse_shorter:
  shows "parse_value s = Some (v, rest) \<Longrightarrow> length rest < length s"
    and "parse_members acc s = Some (kvs, rest) \<Longrightarrow> length rest < length s"
    and "parse_elements es s = Some (vs, rest) \<Longrightarrow> length rest < length s"
proof (induction s and acc s and es s arbitrary: v rest and kvs rest and vs rest
       rule: parse_value_parse_members_parse_elements.induct)
  case (1 s)
  from "1.prems" obtain c cs where sk: "skip_ws s = c # cs"
    by (subst (asm) parse_value.simps) (auto split: list.splits)
  note len = skip_ws_Cons_shorter [OF sk]
  show ?case
  proof (cases "c = CHR ''{''")
    case True
    from "1.prems" sk True obtain d ds where sk2: "skip_ws cs = d # ds"
      by (subst (asm) parse_value.simps) (auto split: list.splits)
    show ?thesis
    proof (cases "d = CHR ''}''")
      case True
      with "1.prems" sk \<open>c = CHR ''{''\<close> sk2 have "rest = ds"
        by (subst (asm) parse_value.simps) auto
      with skip_ws_Cons_shorter [OF sk2] len show ?thesis by simp
    next
      case False
      with "1.prems" sk \<open>c = CHR ''{''\<close> sk2 obtain kvs where "parse_members (Some []) cs = Some (kvs, rest)"
        by (subst (asm) parse_value.simps) auto
      from "1.IH"(1) [OF sk \<open>c = CHR ''{''\<close> sk2 False this] len show ?thesis by simp
    qed
  next
    case nobj: False
    show ?thesis
    proof (cases "c = CHR ''[''")
      case True
      from "1.prems" sk nobj True obtain d ds where sk2: "skip_ws cs = d # ds"
        by (subst (asm) parse_value.simps) (auto split: list.splits)
      show ?thesis
      proof (cases "d = CHR '']''")
        case True
        with "1.prems" sk nobj \<open>c = CHR ''[''\<close> sk2 have "rest = ds"
          by (subst (asm) parse_value.simps) auto
        with skip_ws_Cons_shorter [OF sk2] len show ?thesis by simp
      next
        case False
        with "1.prems" sk nobj \<open>c = CHR ''[''\<close> sk2 obtain vs where "parse_elements (Some []) cs = Some (vs, rest)"
          by (subst (asm) parse_value.simps) auto
        from "1.IH"(2) [OF sk nobj \<open>c = CHR ''[''\<close> sk2 False this] len show ?thesis by simp
      qed
    next
      case narr: False
      from "1.prems" sk nobj narr have
        "(\<exists>str. parse_chars cs = Some (str, rest)) \<or> rest = drop 4 (c # cs) \<or> rest = drop 5 (c # cs)
          \<or> (\<exists>i. parse_number (c # cs) = Some (i, rest))"
        by (subst (asm) parse_value.simps) (auto split: if_splits)
      then show ?thesis
        using len parse_chars_shorter [of cs _ rest] parse_number_shorter [of "c # cs" _ rest]
        by auto
    qed
  qed
next
  case (2 acc s)
  from "2.prems" obtain q cs k s1 colon s2 v s3 d s4 where
    sk: "skip_ws s = q # cs" and q: "\<not> q \<noteq> CHR 0x22" and pc: "parse_chars cs = Some (k, s1)"
    and sk1: "skip_ws s1 = colon # s2" and colon: "\<not> colon \<noteq> CHR '':''"
    and pv: "parse_value s2 = Some (v, s3)" and g: "\<not> length s2 \<le> length s3"
    and sk3: "skip_ws s3 = d # s4"
    by (subst (asm) parse_members.simps) (auto split: list.splits option.splits if_splits)
  have l: "length s4 < length s"
    using skip_ws_Cons_shorter [OF sk] parse_chars_shorter [OF pc] skip_ws_Cons_shorter [OF sk1]
      skip_ws_Cons_shorter [OF sk3] g by simp
  show ?case
  proof (cases "d = CHR '',''")
    case True
    with "2.prems" sk q pc sk1 colon pv g sk3
    have "parse_members (add_member acc k v) s4 = Some (kvs, rest)"
      by (subst (asm) parse_members.simps) auto
    from "2.IH"(2) [OF sk q pc refl sk1 colon pv refl g sk3 True this] l show ?thesis by simp
  next
    case False
    with "2.prems" sk q pc sk1 colon pv g sk3 have "rest = s4"
      by (subst (asm) parse_members.simps) (auto split: if_splits)
    with l show ?thesis by simp
  qed
next
  case (3 es s)
  from "3.prems" obtain v s3 d s4 where
    pv: "parse_value s = Some (v, s3)" and g: "\<not> length s \<le> length s3"
    and sk3: "skip_ws s3 = d # s4"
    by (subst (asm) parse_elements.simps) (auto split: list.splits option.splits if_splits)
  have l: "length s4 < length s"
    using skip_ws_Cons_shorter [OF sk3] g by simp
  show ?case
  proof (cases "d = CHR '',''")
    case True
    with "3.prems" pv g sk3
    have "parse_elements (add_element es v) s4 = Some (vs, rest)"
      by (subst (asm) parse_elements.simps) auto
    from "3.IH"(2) [OF pv refl g sk3 True this] l show ?thesis by simp
  next
    case False
    with "3.prems" pv g sk3 have "rest = s4"
      by (subst (asm) parse_elements.simps) (auto split: if_splits)
    with l show ?thesis by simp
  qed
qed

text \<open>The tests on the lengths in the reader never fail: without them the equations still hold.\<close>

lemma parse_members_unguarded:
  "parse_members acc s =
     (case skip_ws s of
        [] \<Rightarrow> None
      | q # cs \<Rightarrow>
          if q \<noteq> CHR 0x22 then None
          else
            (case parse_chars cs of
               None \<Rightarrow> None
             | Some (k, s1) \<Rightarrow>
                 (case skip_ws s1 of
                    [] \<Rightarrow> None
                  | colon # s2 \<Rightarrow>
                      if colon \<noteq> CHR '':'' then None
                      else
                        (case parse_value s2 of
                           None \<Rightarrow> None
                         | Some (v, s3) \<Rightarrow>
                             (case skip_ws s3 of
                                [] \<Rightarrow> None
                              | d # s4 \<Rightarrow>
                                  if d = CHR '','' then parse_members (add_member acc k v) s4
                                  else if d = CHR ''}'' then Some (add_member acc k v, s4)
                                  else None)))))"
  by (subst parse_members.simps)
     (auto split: list.splits option.splits dest: parse_shorter(1))

lemma parse_elements_unguarded:
  "parse_elements acc s =
     (case parse_value s of
        None \<Rightarrow> None
      | Some (v, s3) \<Rightarrow>
          (case skip_ws s3 of
             [] \<Rightarrow> None
           | d # s4 \<Rightarrow>
               if d = CHR '','' then parse_elements (add_element acc v) s4
               else if d = CHR '']'' then Some (add_element acc v, s4)
               else None))"
  by (subst parse_elements.simps)
     (auto split: list.splits option.splits dest: parse_shorter(1))







subsection \<open>The state store\<close>

























subsection \<open>One pass of the loop\<close>

lemma lookup_store_same [simp]: "lookup_repo (store_repo repo v s) repo = v"
  by (simp add: lookup_repo_def store_repo_def update_conv')

lemma lookup_store_other [simp]:
  "k \<noteq> repo \<Longrightarrow> lookup_repo (store_repo repo v s) k = lookup_repo s k"
  by (simp add: lookup_repo_def store_repo_def update_conv')


text \<open>The paths through the \<open>try\<close> block.\<close>

lemma try_block_fetch_error:
  "fetchLatestRelease args w repo (GITHUB_TOKEN env) (etag rs) = Inl e \<Longrightarrow>
   try_block args env w repo rs = ([], Inl e)"
  by (simp add: try_block_def)

lemma try_block_not_modified:
  "fetchLatestRelease args w repo (GITHUB_TOKEN env) (etag rs) = Inr not_modified \<Longrightarrow>
   try_block args env w repo rs =
     ([], Inr (rs\<lparr>lastCheckedAt := Some (now w)\<rparr>, NoChanges repo, False))"
  by (simp add: try_block_def)

lemma try_block_no_releases:
  "fetchLatestRelease args w repo (GITHUB_TOKEN env) (etag rs) = Inr no_releases \<Longrightarrow>
   try_block args env w repo rs =
     ([], Inr (rs\<lparr>lastCheckedAt := Some (now w)\<rparr>, NoPublishedReleases repo, False))"
  by (simp add: try_block_def)

lemma try_block_tracked:
  "fetchLatestRelease args w repo (GITHUB_TOKEN env) (etag rs) = Inr (ok_release release v) \<Longrightarrow>
   \<not> isNew args rs release \<Longrightarrow>
   try_block args env w repo rs =
     ([], Inr (rs\<lparr>etag := (case v of Some e \<Rightarrow> Some e | None \<Rightarrow> etag rs),
                   lastCheckedAt := Some (now w)\<rparr>,
               AlreadyTracked repo (tag_name release) (id_rel release), False))"
  by (simp add: try_block_def)

lemma try_block_dry:
  "fetchLatestRelease args w repo (GITHUB_TOKEN env) (etag rs) = Inr (ok_release release v) \<Longrightarrow>
   isNew args rs release \<Longrightarrow> dry_run args \<Longrightarrow>
   try_block args env w repo rs =
     ([], Inr (\<lparr>etag = v, lastReleaseId = Some (id_rel release), lastTag = Some (tag_name release),
                lastPublishedAt = Some (published_at release), lastCheckedAt = Some (now w)\<rparr>,
               DryRunWouldSend repo (listifyTo (MAIL_TO env)) (subject (renderEmail w repo release)),
               True))"
  by (simp add: try_block_def Let_def)

lemma try_block_sent:
  "fetchLatestRelease args w repo (GITHUB_TOKEN env) (etag rs) = Inr (ok_release release v) \<Longrightarrow>
   isNew args rs release \<Longrightarrow> \<not> dry_run args \<Longrightarrow>
   sendEmail env w (mail_for env w repo release) = Inr u \<Longrightarrow>
   try_block args env w repo rs =
     ([mail_for env w repo release],
      Inr (\<lparr>etag = v, lastReleaseId = Some (id_rel release), lastTag = Some (tag_name release),
             lastPublishedAt = Some (published_at release), lastCheckedAt = Some (now w)\<rparr>,
           EmailSent repo (tag_name release), True))"
  by (simp add: try_block_def Let_def)

lemma try_block_send_error:
  "fetchLatestRelease args w repo (GITHUB_TOKEN env) (etag rs) = Inr (ok_release release v) \<Longrightarrow>
   isNew args rs release \<Longrightarrow> \<not> dry_run args \<Longrightarrow>
   sendEmail env w (mail_for env w repo release) = Inl e \<Longrightarrow>
   try_block args env w repo rs = ([mail_for env w repo release], Inl e)"
  by (simp add: try_block_def Let_def)

lemma try_block_cases:
  obtains
    (fetch_error) e where
      "fetchLatestRelease args w repo (GITHUB_TOKEN env) (etag rs) = Inl e"
      "try_block args env w repo rs = ([], Inl e)"
  | (unchanged) line where
      "try_block args env w repo rs = ([], Inr (rs\<lparr>lastCheckedAt := Some (now w)\<rparr>, line, False))"
  | (tracked) release v line where
      "fetchLatestRelease args w repo (GITHUB_TOKEN env) (etag rs) = Inr (ok_release release v)"
      "\<not> isNew args rs release"
      "try_block args env w repo rs =
         ([], Inr (rs\<lparr>etag := (case v of Some e \<Rightarrow> Some e | None \<Rightarrow> etag rs),
                       lastCheckedAt := Some (now w)\<rparr>, line, False))"
  | (send_error) release v e where
      "fetchLatestRelease args w repo (GITHUB_TOKEN env) (etag rs) = Inr (ok_release release v)"
      "isNew args rs release" "\<not> dry_run args"
      "try_block args env w repo rs = ([mail_for env w repo release], Inl e)"
  | (notified) release v mails line where
      "fetchLatestRelease args w repo (GITHUB_TOKEN env) (etag rs) = Inr (ok_release release v)"
      "isNew args rs release"
      "try_block args env w repo rs =
         (mails,
          Inr (\<lparr>etag = v, lastReleaseId = Some (id_rel release), lastTag = Some (tag_name release),
                 lastPublishedAt = Some (published_at release), lastCheckedAt = Some (now w)\<rparr>,
               line, True))"
proof (cases "fetchLatestRelease args w repo (GITHUB_TOKEN env) (etag rs)")
  case (Inl e)
  with fetch_error try_block_fetch_error show ?thesis by blast
next
  case (Inr res)
  show ?thesis
  proof (cases res)
    case not_modified
    with Inr unchanged try_block_not_modified show ?thesis by blast
  next
    case no_releases
    with Inr unchanged try_block_no_releases show ?thesis by blast
  next
    case (ok_release release v)
    with Inr have f: "fetchLatestRelease args w repo (GITHUB_TOKEN env) (etag rs)
        = Inr (ok_release release v)" by simp
    show ?thesis
    proof (cases "isNew args rs release")
      case False
      from tracked [OF f False try_block_tracked [OF f False]] show ?thesis .
    next
      case True
      show ?thesis
      proof (cases "dry_run args")
        case dry: True
        from notified [OF f True try_block_dry [OF f True dry]] show ?thesis .
      next
        case real: False
        show ?thesis
        proof (cases "sendEmail env w (mail_for env w repo release)")
          case (Inl e)
          from send_error [OF f True real try_block_send_error [OF f True real Inl]]
          show ?thesis .
        next
          case (Inr u)
          from notified [OF f True try_block_sent [OF f True real Inr]] show ?thesis .
        qed
      qed
    qed
  qed
qed

text \<open>The two ways out of the \<open>try\<close> block: it completed, or the \<open>catch\<close> clause ran.\<close>

lemma loop_body_ok:
  "try_block args env w repo (lookup_repo (state r) repo) = (mails, Inr (stored, line, notified)) \<Longrightarrow>
   loop_body args env w r repo =
     r\<lparr>state := store_repo repo stored (state r),
       changed := (if notified then changed r + 1 else changed r),
       console := console r @ [line],
       outbox := outbox r @ mails\<rparr>"
  by (simp add: loop_body_def)

lemma loop_body_error:
  "try_block args env w repo (lookup_repo (state r) repo) = (mails, Inl (Error message)) \<Longrightarrow>
   loop_body args env w r repo =
     r\<lparr>state := store_repo repo ((lookup_repo (state r) repo)\<lparr>lastCheckedAt := Some (now w)\<rparr>)
                (state r),
       console := console r @ [ErrorLine repo message],
       outbox := outbox r @ mails\<rparr>"
  by (simp add: loop_body_def)

lemma loop_body_shape:
  obtains stored line where
    "state (loop_body args env w r repo) = store_repo repo stored (state r)"
    "lastCheckedAt stored = Some (now w)"
    "console (loop_body args env w r repo) = console r @ [line]"
    "outbox (loop_body args env w r repo) =
       outbox r @ fst (try_block args env w repo (lookup_repo (state r) repo))"
proof (cases rule: try_block_cases [of args w repo env "lookup_repo (state r) repo"])
  case (fetch_error e)
  obtain m where "e = Error m" by (cases e)
  with fetch_error loop_body_error [of args env w repo r "[]" m] show ?thesis
    by (intro that [of "(lookup_repo (state r) repo)\<lparr>lastCheckedAt := Some (now w)\<rparr>"
          "ErrorLine repo m"])
       simp_all
next
  case (unchanged line)
  from loop_body_ok [OF this] unchanged show ?thesis
    by (intro that [of "(lookup_repo (state r) repo)\<lparr>lastCheckedAt := Some (now w)\<rparr>" line])
       simp_all
next
  case (tracked release v line)
  from loop_body_ok [OF tracked(3)] tracked(3) show ?thesis
    by (intro that [of "(lookup_repo (state r) repo)
          \<lparr>etag := (case v of Some e \<Rightarrow> Some e | None \<Rightarrow> etag (lookup_repo (state r) repo)),
           lastCheckedAt := Some (now w)\<rparr>" line])
       simp_all
next
  case (send_error release v e)
  obtain m where "e = Error m" by (cases e)
  with send_error loop_body_error [of args env w repo r _ m] show ?thesis
    by (intro that [of "(lookup_repo (state r) repo)\<lparr>lastCheckedAt := Some (now w)\<rparr>"
          "ErrorLine repo m"])
       simp_all
next
  case (notified release v mails line)
  from loop_body_ok [OF notified(3)] notified(3) show ?thesis
    by (intro that [of "\<lparr>etag = v, lastReleaseId = Some (id_rel release),
                 lastTag = Some (tag_name release),
                 lastPublishedAt = Some (published_at release),
                 lastCheckedAt = Some (now w)\<rparr>" line])
       simp_all
qed

lemma loop_body_other:
  "k \<noteq> repo \<Longrightarrow> lookup_repo (state (loop_body args env w r repo)) k = lookup_repo (state r) k"
  by (rule loop_body_shape [of args env w r repo]) simp

lemma loop_body_checked:
  "lastCheckedAt (lookup_repo (state (loop_body args env w r repo)) repo) = Some (now w)"
  by (rule loop_body_shape [of args env w r repo]) simp

lemma loop_body_console_length:
  "length (console (loop_body args env w r repo)) = Suc (length (console r))"
  by (rule loop_body_shape [of args env w r repo]) simp


text \<open>
  The record stored, the line printed and the messages sent depend on the repository's
  own record only, not on the rest of the run.
\<close>

lemma loop_body_local:
  assumes "lookup_repo (state r) repo = lookup_repo (state r') repo"
  shows "lookup_repo (state (loop_body args env w r repo)) repo
           = lookup_repo (state (loop_body args env w r' repo)) repo \<and>
         last (console (loop_body args env w r repo))
           = last (console (loop_body args env w r' repo))"
  using assms
  by (cases "try_block args env w repo (lookup_repo (state r') repo)")
     (auto simp: loop_body_def split: sum.splits error.splits)

subsection \<open>The whole loop\<close>

lemma run_loop_append:
  "run_loop args env ws i r (xs @ ys) =
     run_loop args env ws (i + length xs) (run_loop args env ws i r xs) ys"
  by (induction xs arbitrary: i r) simp_all

lemma run_loop_other:
  "k \<notin> set xs \<Longrightarrow> lookup_repo (state (run_loop args env ws i r xs)) k = lookup_repo (state r) k"
  by (induction xs arbitrary: i r) (simp_all add: loop_body_other)

lemma run_loop_console_length:
  "length (console (run_loop args env ws i r xs)) = length (console r) + length xs"
  by (induction xs arbitrary: i r) (simp_all add: loop_body_console_length)


lemma run_loop_console_prefix:
  "take (length (console r)) (console (run_loop args env ws i r xs)) = console r"
proof (induction xs arbitrary: i r)
  case Nil
  show ?case by simp
next
  case (Cons x xs)
  obtain line where c: "console (loop_body args env (ws i) r x) = console r @ [line]"
    by (rule loop_body_shape [of args env "ws i" r x]) blast
  from Cons.IH [where i = "Suc i" and r = "loop_body args env (ws i) r x"] c
  have "take (Suc (length (console r))) (console (run_loop args env ws i r (x # xs)))
          = console r @ [line]"
    by simp
  then have "take (length (console r))
               (take (Suc (length (console r))) (console (run_loop args env ws i r (x # xs))))
       = take (length (console r)) (console r @ [line])" by simp
  then show ?case by (simp add: min_def)
qed

text \<open>The last pass over a repository decides its record.\<close>

lemma run_loop_last_pass:
  assumes "k \<notin> set post"
  shows "lookup_repo (state (run_loop args env ws i r (pre @ k # post))) k =
         lookup_repo
           (state (loop_body args env (ws (i + length pre)) (run_loop args env ws i r pre) k)) k"
  using assms by (simp add: run_loop_append run_loop_other)

text \<open>Every entry of the list has its pass, which prints its line.\<close>

lemma run_loop_line:
  "console (run_loop args env ws i r (pre @ k # post)) ! (length (console r) + length pre) =
   last (console (loop_body args env (ws (i + length pre)) (run_loop args env ws i r pre) k))"
proof -
  let ?r1 = "run_loop args env ws i r pre"
  let ?r2 = "loop_body args env (ws (i + length pre)) ?r1 k"
  obtain line where c: "console ?r2 = console ?r1 @ [line]"
    by (rule loop_body_shape [of args env "ws (i + length pre)" ?r1 k]) blast
  have "take (length (console ?r2)) (console (run_loop args env ws (Suc (i + length pre)) ?r2 post))
          = console ?r2"
    by (rule run_loop_console_prefix)
  then have "take (length (console ?r2)) (console (run_loop args env ws i r (pre @ k # post)))
          = console ?r2"
    by (simp add: run_loop_append)
  then have "console (run_loop args env ws i r (pre @ k # post)) ! (length (console ?r1))
      = console ?r2 ! (length (console ?r1))"
    using c by (metis length_append_singleton lessI nth_take)
  moreover have "(console ?r1 @ [line]) ! length (console ?r1) = line" by simp
  moreover have "length (console ?r1) = length (console r) + length pre"
    by (rule run_loop_console_length)
  ultimately show ?thesis using c by simp
qed

lemma loop_body_outbox:
  "outbox (loop_body args env w r repo) =
     outbox r @ fst (try_block args env w repo (lookup_repo (state r) repo))"
  by (rule loop_body_shape [of args env w r repo]) simp

lemma run_loop_snoc:
  "run_loop args env ws i r (xs @ [x]) =
     loop_body args env (ws (i + length xs)) (run_loop args env ws i r xs) x"
  by (simp add: run_loop_append)

lemma run_loop_outbox:
  "distinct rs \<Longrightarrow>
   outbox (run_loop args env ws 0 r rs) =
     outbox r @ concat (map (\<lambda>i. fst (try_block args env (ws i) (rs ! i)
                                       (lookup_repo (state r) (rs ! i)))) [0..<length rs])"
proof (induction rs rule: rev_induct)
  case Nil
  show ?case by simp
next
  case (snoc x xs)
  then have d: "distinct xs" and nx: "x \<notin> set xs" by simp_all
  have l: "lookup_repo (state (run_loop args env ws 0 r xs)) x = lookup_repo (state r) x"
    using nx by (rule run_loop_other)
  have m: "map (\<lambda>i. fst (try_block args env (ws i) ((xs @ [x]) ! i)
                          (lookup_repo (state r) ((xs @ [x]) ! i)))) [0..<length xs]
         = map (\<lambda>i. fst (try_block args env (ws i) (xs ! i)
                          (lookup_repo (state r) (xs ! i)))) [0..<length xs]"
    by (rule map_cong) (simp_all add: nth_append)
  have "outbox (run_loop args env ws 0 r (xs @ [x])) =
          outbox (run_loop args env ws 0 r xs)
          @ fst (try_block args env (ws (length xs)) x (lookup_repo (state r) x))"
    by (simp add: run_loop_snoc loop_body_outbox l)
  with snoc.IH [OF d] show ?case by (simp add: m)
qed

lemma distinct_middle: "distinct (pre @ k # post) \<Longrightarrow> k \<notin> set pre \<and> k \<notin> set post"
  by auto

lemma run_loop_isolated:
  assumes "distinct rs" and "i < length rs"
  shows "lookup_repo (state (run_loop args env ws 0 r rs)) (rs ! i)
           = lookup_repo (state (loop_body args env (ws i) r (rs ! i))) (rs ! i) \<and>
         console (run_loop args env ws 0 r rs) ! (length (console r) + i)
           = last (console (loop_body args env (ws i) r (rs ! i)))"
proof -
  let ?pre = "take i rs" and ?post = "drop (Suc i) rs" and ?k = "rs ! i"
  have s: "rs = ?pre @ ?k # ?post" using assms(2) by (rule id_take_nth_drop)
  have len: "length ?pre = i" using assms(2) by simp
  from assms(1) s have "distinct (?pre @ ?k # ?post)" by simp
  then have "?k \<notin> set ?pre \<and> ?k \<notin> set ?post" by (rule distinct_middle)
  then have n: "?k \<notin> set ?pre" "?k \<notin> set ?post" by simp_all
  have l: "lookup_repo (state (run_loop args env ws 0 r ?pre)) ?k = lookup_repo (state r) ?k"
    using n(1) by (rule run_loop_other)
  note loc = loop_body_local [OF l, of args env "ws i"]
  have a: "lookup_repo (state (run_loop args env ws 0 r (?pre @ ?k # ?post))) ?k
      = lookup_repo (state (loop_body args env (ws i) (run_loop args env ws 0 r ?pre) ?k)) ?k"
    using run_loop_last_pass [OF n(2), of args env ws 0 r ?pre] len by simp
  have b: "console (run_loop args env ws 0 r (?pre @ ?k # ?post)) ! (length (console r) + i)
      = last (console (loop_body args env (ws i) (run_loop args env ws 0 r ?pre) ?k))"
    using run_loop_line [of args env ws 0 r ?pre ?k ?post] len by simp
  from a b loc s show ?thesis by simp
qed

lemma run_loop_all_checked:
  assumes "k \<in> set rs"
  shows "\<exists>i < length rs. rs ! i = k \<and>
           lastCheckedAt (lookup_repo (state (run_loop args env ws 0 r rs)) k) = Some (now (ws i))"
proof -
  from assms obtain pre post where s: "rs = pre @ k # post" and n: "k \<notin> set post"
    using split_list_last by fastforce
  have "lastCheckedAt (lookup_repo (state (run_loop args env ws 0 r rs)) k) = Some (now (ws (length pre)))"
    using run_loop_last_pass [OF n, of args env ws 0 r pre] s by (simp add: loop_body_checked)
  moreover have "length pre < length rs" "rs ! length pre = k" using s by simp_all
  ultimately show ?thesis by blast
qed


subsection \<open>The run from the list of repositories to the state written\<close>




subsection \<open>Outcomes of one pass\<close>

text \<open>
  C5. When the fetch returns \<open>not_modified\<close> (304) or \<open>no_releases\<close> (404), the pass calls
  \<open>sendEmail\<close> for nothing, does not count the repository as changed, and stores the
  repository's record with \<open>lastCheckedAt\<close> set to the clock and every other field
  (\<open>etag\<close>, \<open>lastReleaseId\<close>, \<open>lastTag\<close>, \<open>lastPublishedAt\<close>) as it was.
\<close>

theorem unchanged_frame:
  assumes "fetchLatestRelease args w repo (GITHUB_TOKEN env) (etag (lookup_repo (state r) repo))
             = Inr not_modified \<or>
           fetchLatestRelease args w repo (GITHUB_TOKEN env) (etag (lookup_repo (state r) repo))
             = Inr no_releases"
  shows "outbox (loop_body args env w r repo) = outbox r \<and>
         changed (loop_body args env w r repo) = changed r \<and>
         lookup_repo (state (loop_body args env w r repo)) repo
           = (lookup_repo (state r) repo)\<lparr>lastCheckedAt := Some (now w)\<rparr> \<and>
         etag (lookup_repo (state (loop_body args env w r repo)) repo)
           = etag (lookup_repo (state r) repo) \<and>
         lastReleaseId (lookup_repo (state (loop_body args env w r repo)) repo)
           = lastReleaseId (lookup_repo (state r) repo) \<and>
         lastTag (lookup_repo (state (loop_body args env w r repo)) repo)
           = lastTag (lookup_repo (state r) repo) \<and>
         lastPublishedAt (lookup_repo (state (loop_body args env w r repo)) repo)
           = lastPublishedAt (lookup_repo (state r) repo) \<and>
         lastCheckedAt (lookup_repo (state (loop_body args env w r repo)) repo) = Some (now w)"
proof -
  from assms have "\<exists>line. try_block args env w repo (lookup_repo (state r) repo) =
      ([], Inr ((lookup_repo (state r) repo)\<lparr>lastCheckedAt := Some (now w)\<rparr>, line, False))"
    using try_block_not_modified try_block_no_releases by blast
  then obtain line where "try_block args env w repo (lookup_repo (state r) repo) =
      ([], Inr ((lookup_repo (state r) repo)\<lparr>lastCheckedAt := Some (now w)\<rparr>, line, False))"
    by blast
  from loop_body_ok [OF this] show ?thesis by simp
qed

lemma fetch_answered_304:
  "fetchLatestRelease args (sample_world (answered 304 txt) sent t) repo token validator =
     Inr not_modified"
  by (simp add: fetchLatestRelease_def sample_world_def answered_def Let_def)

lemma fetch_answered_500:
  "fetchLatestRelease args (sample_world (answered 500 txt) sent t) repo token validator =
     Inl (Error (''GitHub API 500 for https://api.github.com/repos/'' @ repo
                 @ ''/releases/latest: '' @ txt))"
proof -
  have "show_int 500 = ''500''"
    unfolding show_int_def digit_char_def by code_simp
  then show ?thesis
    by (simp add: fetchLatestRelease_def request_for_def sample_world_def answered_def ok_def
        Let_def)
qed

theorem unchanged_frame_witness:
  "fetchLatestRelease sample_args (sample_world (answered 304 []) (Inr ()) ''t9'') ''octo/demo''
      (GITHUB_TOKEN sample_env)
      (etag (lookup_repo (state (sample_run\<lparr>state := sample_state\<rparr>)) ''octo/demo''))
     = Inr not_modified \<and>
   outbox (loop_body sample_args sample_env (sample_world (answered 304 []) (Inr ()) ''t9'')
             (sample_run\<lparr>state := sample_state\<rparr>) ''octo/demo'') = [] \<and>
   lookup_repo (state (loop_body sample_args sample_env
                         (sample_world (answered 304 []) (Inr ()) ''t9'')
                         (sample_run\<lparr>state := sample_state\<rparr>) ''octo/demo'')) ''octo/demo''
     = \<lparr>etag = Some (''W/'' @ quote ''abc''), lastReleaseId = Some (Int54 10),
        lastTag = Some ''v1.0.0'', lastPublishedAt = Some ''2024-01-01T00:00:00Z'',
        lastCheckedAt = Some ''t9''\<rparr>"
proof -
  have h: "fetchLatestRelease sample_args (sample_world (answered 304 []) (Inr ()) ''t9'')
      ''octo/demo'' (GITHUB_TOKEN sample_env)
      (etag (lookup_repo (state (sample_run\<lparr>state := sample_state\<rparr>)) ''octo/demo''))
     = Inr not_modified"
    by (rule fetch_answered_304)
  have l: "lookup_repo (state (sample_run\<lparr>state := sample_state\<rparr>)) ''octo/demo''
     = \<lparr>etag = Some (''W/'' @ quote ''abc''), lastReleaseId = Some (Int54 10),
        lastTag = Some ''v1.0.0'', lastPublishedAt = Some ''2024-01-01T00:00:00Z'',
        lastCheckedAt = Some ''2024-01-02T00:00:00.000Z''\<rparr>"
    by (simp add: lookup_repo_def sample_state_def)
  have n: "now (sample_world (answered 304 []) (Inr ()) ''t9'') = ''t9''"
    by (simp add: sample_world_def)
  have o: "outbox (sample_run\<lparr>state := sample_state\<rparr>) = []"
    by (simp add: sample_run_def)
  from unchanged_frame [OF disjI1, OF h] h show ?thesis
    by (simp only: l n o) simp
qed

lemma sample_send: "sendEmail sample_env (sample_world answer sent t) input = sent"
  by (simp add: sendEmail_def sample_env_def sample_world_def truthy_def)

lemma sample_lookup: "lookup_repo (state sample_run) k = empty_RepoState"
  by (simp add: sample_run_def lookup_repo_def)

lemma sample_new: "isNew args empty_RepoState release"
  by (simp add: isNew_def empty_RepoState_def)

lemma sample_real: "\<not> dry_run sample_args"
  by (simp add: sample_args_def)

text \<open>
  C3. When the pass fails, by an error of the fetch or by an error of \<open>sendEmail\<close> for a
  release judged new, the \<open>catch\<close> clause stores the repository's record with
  \<open>lastCheckedAt\<close> set to the clock and every other field as it was (in particular the
  three last-notified fields are not set by a failed send), the repository is not
  counted as changed, the error is printed, and the loop goes on with the next
  repository.
\<close>

theorem failed_cycle_frame:
  assumes "fetchLatestRelease args (ws i) repo (GITHUB_TOKEN env) (etag (lookup_repo (state r) repo))
             = Inl (Error message) \<or>
           (fetchLatestRelease args (ws i) repo (GITHUB_TOKEN env) (etag (lookup_repo (state r) repo))
              = Inr (ok_release release v) \<and>
            isNew args (lookup_repo (state r) repo) release \<and> \<not> dry_run args \<and>
            sendEmail env (ws i) (mail_for env (ws i) repo release) = Inl (Error message))"
  shows "lookup_repo (state (loop_body args env (ws i) r repo)) repo
           = (lookup_repo (state r) repo)\<lparr>lastCheckedAt := Some (now (ws i))\<rparr> \<and>
         etag (lookup_repo (state (loop_body args env (ws i) r repo)) repo)
           = etag (lookup_repo (state r) repo) \<and>
         lastReleaseId (lookup_repo (state (loop_body args env (ws i) r repo)) repo)
           = lastReleaseId (lookup_repo (state r) repo) \<and>
         lastTag (lookup_repo (state (loop_body args env (ws i) r repo)) repo)
           = lastTag (lookup_repo (state r) repo) \<and>
         lastPublishedAt (lookup_repo (state (loop_body args env (ws i) r repo)) repo)
           = lastPublishedAt (lookup_repo (state r) repo) \<and>
         lastCheckedAt (lookup_repo (state (loop_body args env (ws i) r repo)) repo)
           = Some (now (ws i)) \<and>
         changed (loop_body args env (ws i) r repo) = changed r \<and>
         console (loop_body args env (ws i) r repo) = console r @ [ErrorLine repo message] \<and>
         run_loop args env ws i r (repo # rest)
           = run_loop args env ws (Suc i) (loop_body args env (ws i) r repo) rest"
proof -
  from assms have "\<exists>mails. try_block args env (ws i) repo (lookup_repo (state r) repo) =
      (mails, Inl (Error message))"
    using try_block_fetch_error try_block_send_error by blast
  then obtain mails where "try_block args env (ws i) repo (lookup_repo (state r) repo) =
      (mails, Inl (Error message))"
    by blast
  from loop_body_error [OF this] show ?thesis by simp
qed

theorem failed_cycle_frame_witness:
  "fetchLatestRelease sample_args
      (sample_world (found sample_release (Some ''W/1'')) (Inl (Error ''connection refused'')) ''t1'')
      ''octo/demo'' (GITHUB_TOKEN sample_env) (etag (lookup_repo (state sample_run) ''octo/demo''))
     = Inr (ok_release sample_release (Some ''W/1'')) \<and>
   sendEmail sample_env
      (sample_world (found sample_release (Some ''W/1'')) (Inl (Error ''connection refused'')) ''t1'')
      (mail_for sample_env
         (sample_world (found sample_release (Some ''W/1'')) (Inl (Error ''connection refused'')) ''t1'')
         ''octo/demo'' sample_release)
     = Inl (Error ''connection refused'') \<and>
   lookup_repo (state (loop_body sample_args sample_env
        (sample_world (found sample_release (Some ''W/1'')) (Inl (Error ''connection refused'')) ''t1'')
        sample_run ''octo/demo'')) ''octo/demo''
     = empty_RepoState\<lparr>lastCheckedAt := Some ''t1''\<rparr> \<and>
   console (loop_body sample_args sample_env
        (sample_world (found sample_release (Some ''W/1'')) (Inl (Error ''connection refused'')) ''t1'')
        sample_run ''octo/demo'')
     = [ErrorLine ''octo/demo'' ''connection refused'']"
proof -
  let ?w = "sample_world (found sample_release (Some ''W/1'')) (Inl (Error ''connection refused'')) ''t1''"
  have f: "fetchLatestRelease sample_args ?w ''octo/demo'' (GITHUB_TOKEN sample_env)
      (etag (lookup_repo (state sample_run) ''octo/demo''))
     = Inr (ok_release sample_release (Some ''W/1''))"
    by (rule fetch_found)
  have s: "sendEmail sample_env ?w (mail_for sample_env ?w ''octo/demo'' sample_release)
     = Inl (Error ''connection refused'')"
    by (rule sample_send)
  have n: "isNew sample_args (lookup_repo (state sample_run) ''octo/demo'') sample_release"
    by (simp add: sample_lookup sample_new)
  have t: "now ?w = ''t1''" by (simp add: sample_world_def)
  have c: "console sample_run = []" by (simp add: sample_run_def)
  from failed_cycle_frame [where ws = "\<lambda>_. ?w" and i = 0 and r = sample_run,
      OF disjI2, OF conjI, OF f conjI, OF n conjI, OF sample_real s]
  show ?thesis using f s by (simp add: sample_lookup t c)
qed

text \<open>
  C9, as the code has it. The stored validator after a fetch that returned a release:
  when the release is not new, the validator of the fetch is stored if there is one and
  the stored validator is kept if there is none; when the release is new and the pass
  does not fail (a dry run, or a send that succeeded), the validator of the fetch is
  stored whatever it is, so that a fetch without a validator erases the stored one; when
  the release is new and the send fails, the stored validator is kept whatever the fetch
  supplied.
\<close>

theorem validator_update:
  assumes "fetchLatestRelease args w repo (GITHUB_TOKEN env) (etag (lookup_repo (state r) repo))
             = Inr (ok_release release v)"
  shows "(\<not> isNew args (lookup_repo (state r) repo) release \<longrightarrow>
            etag (lookup_repo (state (loop_body args env w r repo)) repo)
              = (case v of Some e \<Rightarrow> Some e | None \<Rightarrow> etag (lookup_repo (state r) repo)) \<and>
            (v = None \<longrightarrow> etag (lookup_repo (state (loop_body args env w r repo)) repo)
                            = etag (lookup_repo (state r) repo))) \<and>
         (isNew args (lookup_repo (state r) repo) release \<and>
          (dry_run args \<or> sendEmail env w (mail_for env w repo release) = Inr ()) \<longrightarrow>
            etag (lookup_repo (state (loop_body args env w r repo)) repo) = v \<and>
            (v = None \<longrightarrow> etag (lookup_repo (state (loop_body args env w r repo)) repo) = None)) \<and>
         (isNew args (lookup_repo (state r) repo) release \<and> \<not> dry_run args \<and>
          sendEmail env w (mail_for env w repo release) = Inl e \<longrightarrow>
            etag (lookup_repo (state (loop_body args env w r repo)) repo)
              = etag (lookup_repo (state r) repo))"
proof (cases "isNew args (lookup_repo (state r) repo) release")
  case False
  from loop_body_ok [OF try_block_tracked [OF assms False]] False show ?thesis
    by (auto split: option.splits)
next
  case True
  show ?thesis
  proof (cases "dry_run args")
    case dry: True
    from loop_body_ok [OF try_block_dry [OF assms True dry]] True dry show ?thesis
      by simp
  next
    case real: False
    show ?thesis
    proof (cases "sendEmail env w (mail_for env w repo release)")
      case (Inl e')
      obtain m where m: "e' = Error m" by (cases e')
      from loop_body_error [OF try_block_send_error [OF assms True real Inl [unfolded m]]]
      have "etag (lookup_repo (state (loop_body args env w r repo)) repo)
              = etag (lookup_repo (state r) repo)"
        by simp
      with True real Inl show ?thesis by simp
    next
      case (Inr u)
      from loop_body_ok [OF try_block_sent [OF assms True real Inr]] True real Inr show ?thesis
        by simp
    qed
  qed
qed

text \<open>
  The stored record of \<open>octo/demo\<close> in \<open>sample_state\<close> has the validator \<open>W/"abc"\<close>, the id
  10 and the tag \<open>v1.0.0\<close>. A fetch that returns the same release without a validator keeps
  the stored validator; with \<open>--force\<close> the same fetch erases it when the send succeeds and
  leaves it when the send fails.
\<close>

theorem validator_update_witness:
  "fetchLatestRelease sample_args (sample_world (found sample_release None) (Inr ()) ''t3'')
      ''octo/demo'' (GITHUB_TOKEN sample_env)
      (etag (lookup_repo (state (sample_run\<lparr>state := sample_state\<rparr>)) ''octo/demo''))
     = Inr (ok_release sample_release None) \<and>
   \<not> isNew sample_args (lookup_repo (state (sample_run\<lparr>state := sample_state\<rparr>)) ''octo/demo'')
        sample_release \<and>
   etag (lookup_repo (state (loop_body sample_args sample_env
           (sample_world (found sample_release None) (Inr ()) ''t3'')
           (sample_run\<lparr>state := sample_state\<rparr>) ''octo/demo'')) ''octo/demo'')
     = Some (''W/'' @ quote ''abc'') \<and>
   isNew (sample_args\<lparr>force := True\<rparr>)
      (lookup_repo (state (sample_run\<lparr>state := sample_state\<rparr>)) ''octo/demo'') sample_release \<and>
   etag (lookup_repo (state (loop_body (sample_args\<lparr>force := True\<rparr>) sample_env
           (sample_world (found sample_release None) (Inr ()) ''t3'')
           (sample_run\<lparr>state := sample_state\<rparr>) ''octo/demo'')) ''octo/demo'')
     = None \<and>
   \<not> dry_run (sample_args\<lparr>force := True\<rparr>) \<and>
   sendEmail sample_env
      (sample_world (found sample_release None) (Inl (Error ''connection refused'')) ''t3'')
      (mail_for sample_env
         (sample_world (found sample_release None) (Inl (Error ''connection refused'')) ''t3'')
         ''octo/demo'' sample_release)
     = Inl (Error ''connection refused'') \<and>
   etag (lookup_repo (state (loop_body (sample_args\<lparr>force := True\<rparr>) sample_env
           (sample_world (found sample_release None) (Inl (Error ''connection refused'')) ''t3'')
           (sample_run\<lparr>state := sample_state\<rparr>) ''octo/demo'')) ''octo/demo'')
     = Some (''W/'' @ quote ''abc'')"
proof -
  let ?x = "sample_world (found sample_release None) (Inl (Error ''connection refused'')) ''t3''"
  let ?w = "sample_world (found sample_release None) (Inr ()) ''t3''"
  let ?r = "sample_run\<lparr>state := sample_state\<rparr>"
  have l: "lookup_repo (state ?r) ''octo/demo''
     = \<lparr>etag = Some (''W/'' @ quote ''abc''), lastReleaseId = Some (Int54 10),
        lastTag = Some ''v1.0.0'', lastPublishedAt = Some ''2024-01-01T00:00:00Z'',
        lastCheckedAt = Some ''2024-01-02T00:00:00.000Z''\<rparr>"
    by (simp add: lookup_repo_def sample_state_def)
  have f: "fetchLatestRelease sample_args ?w ''octo/demo'' (GITHUB_TOKEN sample_env)
      (etag (lookup_repo (state ?r) ''octo/demo'')) = Inr (ok_release sample_release None)"
    by (rule fetch_found)
  have f': "fetchLatestRelease (sample_args\<lparr>force := True\<rparr>) ?w ''octo/demo'' (GITHUB_TOKEN sample_env)
      (etag (lookup_repo (state ?r) ''octo/demo'')) = Inr (ok_release sample_release None)"
    by (rule fetch_found)
  have old: "\<not> isNew sample_args (lookup_repo (state ?r) ''octo/demo'') sample_release"
    unfolding l by (simp add: isNew_def sample_release_def sample_args_def)
  have new: "isNew (sample_args\<lparr>force := True\<rparr>) (lookup_repo (state ?r) ''octo/demo'') sample_release"
    by (simp add: isNew_def)
  have s: "sendEmail sample_env ?w (mail_for sample_env ?w ''octo/demo'' sample_release) = Inr ()"
    by (rule sample_send)
  have e: "etag (lookup_repo (state ?r) ''octo/demo'') = Some (''W/'' @ quote ''abc'')"
    unfolding l by simp
  from validator_update [OF f] old e
  have a: "etag (lookup_repo (state (loop_body sample_args sample_env ?w ?r ''octo/demo'')) ''octo/demo'')
     = Some (''W/'' @ quote ''abc'')"
    by simp
  from validator_update [OF f'] new s
  have b: "etag (lookup_repo (state (loop_body (sample_args\<lparr>force := True\<rparr>) sample_env ?w ?r
             ''octo/demo'')) ''octo/demo'') = None"
    by simp
  have f'': "fetchLatestRelease (sample_args\<lparr>force := True\<rparr>) ?x ''octo/demo'' (GITHUB_TOKEN sample_env)
      (etag (lookup_repo (state ?r) ''octo/demo'')) = Inr (ok_release sample_release None)"
    by (rule fetch_found)
  have real: "\<not> dry_run (sample_args\<lparr>force := True\<rparr>)"
    by (simp add: sample_args_def)
  have x: "sendEmail sample_env ?x (mail_for sample_env ?x ''octo/demo'' sample_release)
     = Inl (Error ''connection refused'')"
    by (rule sample_send)
  from validator_update [OF f'', where e = "Error ''connection refused''"] new real x e
  have c: "etag (lookup_repo (state (loop_body (sample_args\<lparr>force := True\<rparr>) sample_env ?x ?r
             ''octo/demo'')) ''octo/demo'') = Some (''W/'' @ quote ''abc'')"
    by simp
  from f old a new b real x c show ?thesis by (intro conjI)
qed

text \<open>
  The claim as the specification words it fails when the send fails. The stored record of
  \<open>octo/demo\<close> has the validator \<open>W/"abc"\<close> and the id 10; the fetch returns the release 11
  without a validator, so that the release is judged new; the send is refused. The stored
  validator is not replaced by that of the fetch: it is still \<open>W/"abc"\<close>.
\<close>

theorem validator_update_counterexample:
  "fetchLatestRelease sample_args
      (sample_world (found (sample_release\<lparr>id_rel := Int54 11\<rparr>) None)
         (Inl (Error ''connection refused'')) ''t3'')
      ''octo/demo'' (GITHUB_TOKEN sample_env)
      (etag (lookup_repo (state (sample_run\<lparr>state := sample_state\<rparr>)) ''octo/demo''))
     = Inr (ok_release (sample_release\<lparr>id_rel := Int54 11\<rparr>) None) \<and>
   isNew sample_args (lookup_repo (state (sample_run\<lparr>state := sample_state\<rparr>)) ''octo/demo'')
      (sample_release\<lparr>id_rel := Int54 11\<rparr>) \<and>
   etag (lookup_repo (state (sample_run\<lparr>state := sample_state\<rparr>)) ''octo/demo'')
     = Some (''W/'' @ quote ''abc'') \<and>
   etag (lookup_repo (state (loop_body sample_args sample_env
           (sample_world (found (sample_release\<lparr>id_rel := Int54 11\<rparr>) None)
              (Inl (Error ''connection refused'')) ''t3'')
           (sample_run\<lparr>state := sample_state\<rparr>) ''octo/demo'')) ''octo/demo'')
     = Some (''W/'' @ quote ''abc'') \<and>
   etag (lookup_repo (state (loop_body sample_args sample_env
           (sample_world (found (sample_release\<lparr>id_rel := Int54 11\<rparr>) None)
              (Inl (Error ''connection refused'')) ''t3'')
           (sample_run\<lparr>state := sample_state\<rparr>) ''octo/demo'')) ''octo/demo'')
     \<noteq> None"
proof -
  let ?rel = "sample_release\<lparr>id_rel := Int54 11\<rparr>"
  let ?w = "sample_world (found ?rel None) (Inl (Error ''connection refused'')) ''t3''"
  let ?r = "sample_run\<lparr>state := sample_state\<rparr>"
  have l: "lookup_repo (state ?r) ''octo/demo''
     = \<lparr>etag = Some (''W/'' @ quote ''abc''), lastReleaseId = Some (Int54 10),
        lastTag = Some ''v1.0.0'', lastPublishedAt = Some ''2024-01-01T00:00:00Z'',
        lastCheckedAt = Some ''2024-01-02T00:00:00.000Z''\<rparr>"
    by (simp add: lookup_repo_def sample_state_def)
  have f: "fetchLatestRelease sample_args ?w ''octo/demo'' (GITHUB_TOKEN sample_env)
      (etag (lookup_repo (state ?r) ''octo/demo'')) = Inr (ok_release ?rel None)"
    by (rule fetch_found)
  have n: "isNew sample_args (lookup_repo (state ?r) ''octo/demo'') ?rel"
    unfolding l by (simp add: isNew_def)
  have s: "sendEmail sample_env ?w (mail_for sample_env ?w ''octo/demo'' ?rel)
     = Inl (Error ''connection refused'')"
    by (rule sample_send)
  have e: "etag (lookup_repo (state ?r) ''octo/demo'') = Some (''W/'' @ quote ''abc'')"
    unfolding l by simp
  from loop_body_error [OF try_block_send_error [OF f n sample_real s]] e
  have a: "etag (lookup_repo (state (loop_body sample_args sample_env ?w ?r ''octo/demo''))
             ''octo/demo'') = Some (''W/'' @ quote ''abc'')"
    by simp
  from f n e a show ?thesis by simp
qed

text \<open>
  C2, as the code has it. When a release is judged new and the pass does not fail (a dry
  run, which sends nothing, or a real run whose \<open>sendEmail\<close> succeeded), the repository's
  record is replaced by one record made of the validator of the fetch, the id, the tag
  and the publication time of the release, and the clock; the record is the same in a
  dry run and after a send that succeeded, and the repository is counted as changed.
  In every pass, whatever its outcome, the three last-notified fields are either all as
  they were or all those of the release fetched in this pass. When a release is judged
  new and the send of a real run fails, the record is not replaced: it is the old record
  with \<open>lastCheckedAt\<close> set to the clock, and the repository is not counted as changed.
\<close>

theorem notified_record_replaced:
  "(fetchLatestRelease args w repo (GITHUB_TOKEN env) (etag (lookup_repo (state r) repo))
       = Inr (ok_release release v) \<and>
    isNew args (lookup_repo (state r) repo) release \<and>
    (dry_run args \<or> sendEmail env w (mail_for env w repo release) = Inr ()) \<longrightarrow>
      lookup_repo (state (loop_body args env w r repo)) repo =
        \<lparr>etag = v, lastReleaseId = Some (id_rel release), lastTag = Some (tag_name release),
         lastPublishedAt = Some (published_at release), lastCheckedAt = Some (now w)\<rparr> \<and>
      changed (loop_body args env w r repo) = changed r + 1) \<and>
   ((lastReleaseId (lookup_repo (state (loop_body args env w r repo)) repo)
       = lastReleaseId (lookup_repo (state r) repo) \<and>
     lastTag (lookup_repo (state (loop_body args env w r repo)) repo)
       = lastTag (lookup_repo (state r) repo) \<and>
     lastPublishedAt (lookup_repo (state (loop_body args env w r repo)) repo)
       = lastPublishedAt (lookup_repo (state r) repo)) \<or>
    (\<exists>rel val. fetchLatestRelease args w repo (GITHUB_TOKEN env) (etag (lookup_repo (state r) repo))
         = Inr (ok_release rel val) \<and>
       lastReleaseId (lookup_repo (state (loop_body args env w r repo)) repo) = Some (id_rel rel) \<and>
       lastTag (lookup_repo (state (loop_body args env w r repo)) repo) = Some (tag_name rel) \<and>
       lastPublishedAt (lookup_repo (state (loop_body args env w r repo)) repo)
         = Some (published_at rel))) \<and>
   (fetchLatestRelease args w repo (GITHUB_TOKEN env) (etag (lookup_repo (state r) repo))
       = Inr (ok_release release v) \<and>
    isNew args (lookup_repo (state r) repo) release \<and> \<not> dry_run args \<and>
    sendEmail env w (mail_for env w repo release) = Inl e \<longrightarrow>
      lookup_repo (state (loop_body args env w r repo)) repo =
        (lookup_repo (state r) repo)\<lparr>lastCheckedAt := Some (now w)\<rparr> \<and>
      changed (loop_body args env w r repo) = changed r)"
proof (intro conjI impI)
  assume a: "fetchLatestRelease args w repo (GITHUB_TOKEN env) (etag (lookup_repo (state r) repo))
       = Inr (ok_release release v) \<and>
    isNew args (lookup_repo (state r) repo) release \<and>
    (dry_run args \<or> sendEmail env w (mail_for env w repo release) = Inr ())"
  then have f: "fetchLatestRelease args w repo (GITHUB_TOKEN env) (etag (lookup_repo (state r) repo))
       = Inr (ok_release release v)"
    and n: "isNew args (lookup_repo (state r) repo) release" by simp_all
  have "\<exists>mails line. try_block args env w repo (lookup_repo (state r) repo) =
      (mails,
       Inr (\<lparr>etag = v, lastReleaseId = Some (id_rel release), lastTag = Some (tag_name release),
              lastPublishedAt = Some (published_at release), lastCheckedAt = Some (now w)\<rparr>,
            line, True))"
  proof (cases "dry_run args")
    case True
    from try_block_dry [OF f n True] show ?thesis by blast
  next
    case False
    with a have "sendEmail env w (mail_for env w repo release) = Inr ()" by simp
    from try_block_sent [OF f n False this] show ?thesis by blast
  qed
  then obtain mails line where t: "try_block args env w repo (lookup_repo (state r) repo) =
      (mails,
       Inr (\<lparr>etag = v, lastReleaseId = Some (id_rel release), lastTag = Some (tag_name release),
              lastPublishedAt = Some (published_at release), lastCheckedAt = Some (now w)\<rparr>,
            line, True))"
    by blast
  from loop_body_ok [OF t]
  show "lookup_repo (state (loop_body args env w r repo)) repo =
        \<lparr>etag = v, lastReleaseId = Some (id_rel release), lastTag = Some (tag_name release),
         lastPublishedAt = Some (published_at release), lastCheckedAt = Some (now w)\<rparr>"
    by simp
  from loop_body_ok [OF t]
  show "changed (loop_body args env w r repo) = changed r + 1"
    by simp
next
  show "(lastReleaseId (lookup_repo (state (loop_body args env w r repo)) repo)
       = lastReleaseId (lookup_repo (state r) repo) \<and>
     lastTag (lookup_repo (state (loop_body args env w r repo)) repo)
       = lastTag (lookup_repo (state r) repo) \<and>
     lastPublishedAt (lookup_repo (state (loop_body args env w r repo)) repo)
       = lastPublishedAt (lookup_repo (state r) repo)) \<or>
    (\<exists>rel val. fetchLatestRelease args w repo (GITHUB_TOKEN env) (etag (lookup_repo (state r) repo))
         = Inr (ok_release rel val) \<and>
       lastReleaseId (lookup_repo (state (loop_body args env w r repo)) repo) = Some (id_rel rel) \<and>
       lastTag (lookup_repo (state (loop_body args env w r repo)) repo) = Some (tag_name rel) \<and>
       lastPublishedAt (lookup_repo (state (loop_body args env w r repo)) repo)
         = Some (published_at rel))"
  proof (cases rule: try_block_cases [of args w repo env "lookup_repo (state r) repo"])
    case (fetch_error e)
    obtain m where "e = Error m" by (cases e)
    with fetch_error loop_body_error [of args env w repo r "[]" m] show ?thesis by simp
  next
    case (unchanged line)
    from loop_body_ok [OF this] show ?thesis by simp
  next
    case (tracked release v line)
    from loop_body_ok [OF tracked(3)] show ?thesis by simp
  next
    case (send_error release v e)
    obtain m where "e = Error m" by (cases e)
    with send_error loop_body_error [of args env w repo r _ m] show ?thesis by simp
  next
    case (notified release v mails line)
    from loop_body_ok [OF notified(3)] notified(1) show ?thesis by simp
  qed
next
  assume a: "fetchLatestRelease args w repo (GITHUB_TOKEN env) (etag (lookup_repo (state r) repo))
       = Inr (ok_release release v) \<and>
    isNew args (lookup_repo (state r) repo) release \<and> \<not> dry_run args \<and>
    sendEmail env w (mail_for env w repo release) = Inl e"
  obtain m where m: "e = Error m" by (cases e)
  from a m have "try_block args env w repo (lookup_repo (state r) repo)
      = ([mail_for env w repo release], Inl (Error m))"
    by (simp add: try_block_send_error)
  note b = loop_body_error [OF this]
  from b show "lookup_repo (state (loop_body args env w r repo)) repo =
        (lookup_repo (state r) repo)\<lparr>lastCheckedAt := Some (now w)\<rparr>"
    by simp
  from b show "changed (loop_body args env w r repo) = changed r"
    by simp
qed

theorem notified_record_replaced_witness:
  "fetchLatestRelease sample_args (sample_world (found sample_release (Some ''W/1'')) (Inr ()) ''t1'')
      ''octo/demo'' (GITHUB_TOKEN sample_env) (etag (lookup_repo (state sample_run) ''octo/demo''))
     = Inr (ok_release sample_release (Some ''W/1'')) \<and>
   isNew sample_args (lookup_repo (state sample_run) ''octo/demo'') sample_release \<and>
   sendEmail sample_env (sample_world (found sample_release (Some ''W/1'')) (Inr ()) ''t1'')
      (mail_for sample_env (sample_world (found sample_release (Some ''W/1'')) (Inr ()) ''t1'')
         ''octo/demo'' sample_release) = Inr () \<and>
   lookup_repo (state (loop_body sample_args sample_env
        (sample_world (found sample_release (Some ''W/1'')) (Inr ()) ''t1'')
        sample_run ''octo/demo'')) ''octo/demo''
     = \<lparr>etag = Some ''W/1'', lastReleaseId = Some (Int54 10), lastTag = Some ''v1.0.0'',
        lastPublishedAt = Some ''2024-01-01T00:00:00Z'', lastCheckedAt = Some ''t1''\<rparr> \<and>
   \<not> dry_run sample_args \<and>
   sendEmail sample_env
      (sample_world (found sample_release (Some ''W/1'')) (Inl (Error ''connection refused'')) ''t1'')
      (mail_for sample_env
         (sample_world (found sample_release (Some ''W/1'')) (Inl (Error ''connection refused''))
            ''t1'')
         ''octo/demo'' sample_release) = Inl (Error ''connection refused'') \<and>
   lookup_repo (state (loop_body sample_args sample_env
        (sample_world (found sample_release (Some ''W/1'')) (Inl (Error ''connection refused'')) ''t1'')
        sample_run ''octo/demo'')) ''octo/demo''
     = empty_RepoState\<lparr>lastCheckedAt := Some ''t1''\<rparr>"
proof -
  let ?w = "sample_world (found sample_release (Some ''W/1'')) (Inr ()) ''t1''"
  let ?x = "sample_world (found sample_release (Some ''W/1'')) (Inl (Error ''connection refused''))
              ''t1''"
  have f: "fetchLatestRelease sample_args ?w ''octo/demo'' (GITHUB_TOKEN sample_env)
      (etag (lookup_repo (state sample_run) ''octo/demo''))
     = Inr (ok_release sample_release (Some ''W/1''))"
    by (rule fetch_found)
  have s: "sendEmail sample_env ?w (mail_for sample_env ?w ''octo/demo'' sample_release) = Inr ()"
    by (rule sample_send)
  have n: "isNew sample_args (lookup_repo (state sample_run) ''octo/demo'') sample_release"
    by (simp add: sample_lookup sample_new)
  have t: "now ?w = ''t1''" by (simp add: sample_world_def)
  from notified_record_replaced [of sample_args ?w "''octo/demo''" sample_env sample_run
      sample_release "Some ''W/1''"] f n s
  have "lookup_repo (state (loop_body sample_args sample_env ?w sample_run ''octo/demo'')) ''octo/demo''
     = \<lparr>etag = Some ''W/1'', lastReleaseId = Some (id_rel sample_release),
        lastTag = Some (tag_name sample_release),
        lastPublishedAt = Some (published_at sample_release), lastCheckedAt = Some (now ?w)\<rparr>"
    by blast
  moreover have "id_rel sample_release = Int54 10" "tag_name sample_release = ''v1.0.0''"
    "published_at sample_release = ''2024-01-01T00:00:00Z''"
    by (simp_all add: sample_release_def)
  ultimately have a: "lookup_repo (state (loop_body sample_args sample_env ?w sample_run
        ''octo/demo'')) ''octo/demo''
     = \<lparr>etag = Some ''W/1'', lastReleaseId = Some (Int54 10), lastTag = Some ''v1.0.0'',
        lastPublishedAt = Some ''2024-01-01T00:00:00Z'', lastCheckedAt = Some ''t1''\<rparr>"
    using t by simp
  have f': "fetchLatestRelease sample_args ?x ''octo/demo'' (GITHUB_TOKEN sample_env)
      (etag (lookup_repo (state sample_run) ''octo/demo''))
     = Inr (ok_release sample_release (Some ''W/1''))"
    by (rule fetch_found)
  have x: "sendEmail sample_env ?x (mail_for sample_env ?x ''octo/demo'' sample_release)
     = Inl (Error ''connection refused'')"
    by (rule sample_send)
  have t': "now ?x = ''t1''" by (simp add: sample_world_def)
  from notified_record_replaced [of sample_args ?x "''octo/demo''" sample_env sample_run
      sample_release "Some ''W/1''" "Error ''connection refused''"] f' n sample_real x
  have "lookup_repo (state (loop_body sample_args sample_env ?x sample_run ''octo/demo''))
          ''octo/demo''
     = (lookup_repo (state sample_run) ''octo/demo'')\<lparr>lastCheckedAt := Some (now ?x)\<rparr>"
    by blast
  then have b: "lookup_repo (state (loop_body sample_args sample_env ?x sample_run ''octo/demo''))
          ''octo/demo'' = empty_RepoState\<lparr>lastCheckedAt := Some ''t1''\<rparr>"
    by (simp add: sample_lookup t')
  from f n s a sample_real x b show ?thesis by (intro conjI)
qed

text \<open>
  The claim as the specification words it fails when a real send fails: the release is
  judged new, and the record is not replaced (the \<open>catch\<close> clause keeps the old record and
  sets \<open>lastCheckedAt\<close> only), whereas the same pass as a dry run replaces it.
\<close>

theorem notified_record_counterexample:
  "fetchLatestRelease sample_args
      (sample_world (found sample_release (Some ''W/1'')) (Inl (Error ''connection refused'')) ''t1'')
      ''octo/demo'' (GITHUB_TOKEN sample_env) (etag (lookup_repo (state sample_run) ''octo/demo''))
     = Inr (ok_release sample_release (Some ''W/1'')) \<and>
   isNew sample_args (lookup_repo (state sample_run) ''octo/demo'') sample_release \<and>
   lookup_repo (state (loop_body sample_args sample_env
        (sample_world (found sample_release (Some ''W/1'')) (Inl (Error ''connection refused'')) ''t1'')
        sample_run ''octo/demo'')) ''octo/demo''
     \<noteq> \<lparr>etag = Some ''W/1'', lastReleaseId = Some (Int54 10), lastTag = Some ''v1.0.0'',
        lastPublishedAt = Some ''2024-01-01T00:00:00Z'', lastCheckedAt = Some ''t1''\<rparr> \<and>
   lastReleaseId (lookup_repo (state (loop_body sample_args sample_env
        (sample_world (found sample_release (Some ''W/1'')) (Inl (Error ''connection refused'')) ''t1'')
        sample_run ''octo/demo'')) ''octo/demo'') = None \<and>
   lookup_repo (state (loop_body (sample_args\<lparr>dry_run := True\<rparr>) sample_env
        (sample_world (found sample_release (Some ''W/1'')) (Inl (Error ''connection refused'')) ''t1'')
        sample_run ''octo/demo'')) ''octo/demo''
     = \<lparr>etag = Some ''W/1'', lastReleaseId = Some (Int54 10), lastTag = Some ''v1.0.0'',
        lastPublishedAt = Some ''2024-01-01T00:00:00Z'', lastCheckedAt = Some ''t1''\<rparr>"
proof -
  let ?w = "sample_world (found sample_release (Some ''W/1'')) (Inl (Error ''connection refused'')) ''t1''"
  have f: "fetchLatestRelease sample_args ?w ''octo/demo'' (GITHUB_TOKEN sample_env)
      (etag (lookup_repo (state sample_run) ''octo/demo''))
     = Inr (ok_release sample_release (Some ''W/1''))"
    by (rule fetch_found)
  have f': "fetchLatestRelease (sample_args\<lparr>dry_run := True\<rparr>) ?w ''octo/demo''
      (GITHUB_TOKEN sample_env) (etag (lookup_repo (state sample_run) ''octo/demo''))
     = Inr (ok_release sample_release (Some ''W/1''))"
    by (rule fetch_found)
  have s: "sendEmail sample_env ?w (mail_for sample_env ?w ''octo/demo'' sample_release)
     = Inl (Error ''connection refused'')"
    by (rule sample_send)
  have n: "isNew sample_args (lookup_repo (state sample_run) ''octo/demo'') sample_release"
    by (simp add: sample_lookup sample_new)
  have n': "isNew (sample_args\<lparr>dry_run := True\<rparr>) (lookup_repo (state sample_run) ''octo/demo'')
      sample_release"
    by (simp add: sample_lookup sample_new)
  have t: "now ?w = ''t1''" by (simp add: sample_world_def)
  from loop_body_error [OF try_block_send_error [OF f n sample_real s]]
  have a: "lookup_repo (state (loop_body sample_args sample_env ?w sample_run ''octo/demo'')) ''octo/demo''
     = empty_RepoState\<lparr>lastCheckedAt := Some ''t1''\<rparr>"
    by (simp add: sample_lookup t)
  have d: "dry_run (sample_args\<lparr>dry_run := True\<rparr>)" by simp
  have r: "id_rel sample_release = Int54 10" "tag_name sample_release = ''v1.0.0''"
    "published_at sample_release = ''2024-01-01T00:00:00Z''"
    by (simp_all add: sample_release_def)
  from loop_body_ok [OF try_block_dry [OF f' n' d]]
  have b: "lookup_repo (state (loop_body (sample_args\<lparr>dry_run := True\<rparr>) sample_env ?w sample_run
        ''octo/demo'')) ''octo/demo''
     = \<lparr>etag = Some ''W/1'', lastReleaseId = Some (Int54 10), lastTag = Some ''v1.0.0'',
        lastPublishedAt = Some ''2024-01-01T00:00:00Z'', lastCheckedAt = Some ''t1''\<rparr>"
    by (simp add: t r)
  from f n a b show ?thesis by (simp add: empty_RepoState_def)
qed




subsection \<open>Passes do not disturb one another\<close>

text \<open>
  C4. For every list of repositories, every entry has its pass and its printed line, and
  every repository of the list ends with \<open>lastCheckedAt\<close> set by its last pass, whatever the
  other passes did, errors included. When the repositories are distinct, the record stored
  for each, the line printed for it and the messages sent for it are those of its own pass
  run on the initial state alone: an error in the pass of one repository changes nothing
  for the repositories before and after it.
\<close>

theorem error_isolation:
  "length (console (run_loop args env ws 0 r rs)) = length (console r) + length rs \<and>
   (\<forall>k \<in> set rs. \<exists>i < length rs. rs ! i = k \<and>
        lastCheckedAt (lookup_repo (state (run_loop args env ws 0 r rs)) k) = Some (now (ws i))) \<and>
   (distinct rs \<longrightarrow>
      (\<forall>i < length rs.
         lookup_repo (state (run_loop args env ws 0 r rs)) (rs ! i)
           = lookup_repo (state (loop_body args env (ws i) r (rs ! i))) (rs ! i) \<and>
         console (run_loop args env ws 0 r rs) ! (length (console r) + i)
           = last (console (loop_body args env (ws i) r (rs ! i)))) \<and>
      outbox (run_loop args env ws 0 r rs) =
        outbox r @ concat (map (\<lambda>i. fst (try_block args env (ws i) (rs ! i)
                                          (lookup_repo (state r) (rs ! i)))) [0..<length rs]))"
  using run_loop_console_length [of args env ws 0 r rs]
    run_loop_all_checked [of _ rs args env ws r]
    run_loop_isolated [of rs _ args env ws r]
    run_loop_outbox [of rs args env ws r]
  by blast

lemma sample_pass_found:
  "lookup_repo (state (loop_body sample_args sample_env
       (sample_world (found sample_release v) (Inr ()) t) sample_run k)) k
     = \<lparr>etag = v, lastReleaseId = Some (Int54 10), lastTag = Some ''v1.0.0'',
        lastPublishedAt = Some ''2024-01-01T00:00:00Z'', lastCheckedAt = Some t\<rparr>"
proof -
  let ?w = "sample_world (found sample_release v) (Inr ()) t"
  have f: "fetchLatestRelease sample_args ?w k (GITHUB_TOKEN sample_env)
      (etag (lookup_repo (state sample_run) k)) = Inr (ok_release sample_release v)"
    by (rule fetch_found)
  have n: "isNew sample_args (lookup_repo (state sample_run) k) sample_release"
    by (simp add: sample_lookup sample_new)
  have s: "sendEmail sample_env ?w (mail_for sample_env ?w k sample_release) = Inr ()"
    by (rule sample_send)
  have t: "now ?w = t" by (simp add: sample_world_def)
  have r: "id_rel sample_release = Int54 10" "tag_name sample_release = ''v1.0.0''"
    "published_at sample_release = ''2024-01-01T00:00:00Z''"
    by (simp_all add: sample_release_def)
  from loop_body_ok [OF try_block_sent [OF f n sample_real s]] show ?thesis
    by (simp add: t r)
qed

lemma sample_pass_500:
  "lookup_repo (state (loop_body sample_args sample_env
       (sample_world (answered 500 txt) sent t) sample_run k)) k
     = empty_RepoState\<lparr>lastCheckedAt := Some t\<rparr>"
proof -
  let ?w = "sample_world (answered 500 txt) sent t"
  have t: "now ?w = t" by (simp add: sample_world_def)
  from loop_body_error [OF try_block_fetch_error [OF fetch_answered_500]] show ?thesis
    by (simp add: t sample_lookup)
qed

theorem error_isolation_witness:
  "distinct [''a/one'', ''b/two'', ''c/three''] \<and>
   lookup_repo (state (run_loop sample_args sample_env sample_worlds 0 sample_run
                         [''a/one'', ''b/two'', ''c/three''])) ''a/one''
     = \<lparr>etag = Some ''W/1'', lastReleaseId = Some (Int54 10), lastTag = Some ''v1.0.0'',
        lastPublishedAt = Some ''2024-01-01T00:00:00Z'', lastCheckedAt = Some ''t0''\<rparr> \<and>
   lookup_repo (state (run_loop sample_args sample_env sample_worlds 0 sample_run
                         [''a/one'', ''b/two'', ''c/three''])) ''b/two''
     = empty_RepoState\<lparr>lastCheckedAt := Some ''t1''\<rparr> \<and>
   lookup_repo (state (run_loop sample_args sample_env sample_worlds 0 sample_run
                         [''a/one'', ''b/two'', ''c/three''])) ''c/three''
     = \<lparr>etag = None, lastReleaseId = Some (Int54 10), lastTag = Some ''v1.0.0'',
        lastPublishedAt = Some ''2024-01-01T00:00:00Z'', lastCheckedAt = Some ''t2''\<rparr>"
proof -
  let ?rs = "[''a/one'', ''b/two'', ''c/three'']"
  have d: "distinct ?rs" by simp
  note iso = error_isolation [of sample_args sample_env sample_worlds sample_run ?rs,
      THEN conjunct2, THEN conjunct2, THEN mp, OF d, THEN conjunct1]
  have w: "sample_worlds 0 = sample_world (found sample_release (Some ''W/1'')) (Inr ()) ''t0''"
    "sample_worlds 1 = sample_world (answered 500 ''Server Error'') (Inr ()) ''t1''"
    "sample_worlds 2 = sample_world (found sample_release None) (Inr ()) ''t2''"
    "sample_worlds (Suc 0) = sample_world (answered 500 ''Server Error'') (Inr ()) ''t1''"
    "sample_worlds (Suc (Suc 0)) = sample_world (found sample_release None) (Inr ()) ''t2''"
    by (simp_all add: sample_worlds_def)
  have "(0::nat) < length ?rs" by simp
  from iso [THEN spec, THEN mp, OF this, THEN conjunct1]
  have a: "lookup_repo (state (run_loop sample_args sample_env sample_worlds 0 sample_run ?rs)) ''a/one''
     = \<lparr>etag = Some ''W/1'', lastReleaseId = Some (Int54 10), lastTag = Some ''v1.0.0'',
        lastPublishedAt = Some ''2024-01-01T00:00:00Z'', lastCheckedAt = Some ''t0''\<rparr>"
    by (simp add: w sample_pass_found)
  have "(1::nat) < length ?rs" by simp
  from iso [THEN spec, THEN mp, OF this, THEN conjunct1]
  have b: "lookup_repo (state (run_loop sample_args sample_env sample_worlds 0 sample_run ?rs)) ''b/two''
     = empty_RepoState\<lparr>lastCheckedAt := Some ''t1''\<rparr>"
    by (simp add: w sample_pass_500)
  have "(2::nat) < length ?rs" by simp
  from iso [THEN spec, THEN mp, OF this, THEN conjunct1]
  have c: "lookup_repo (state (run_loop sample_args sample_env sample_worlds 0 sample_run ?rs)) ''c/three''
     = \<lparr>etag = None, lastReleaseId = Some (Int54 10), lastTag = Some ''v1.0.0'',
        lastPublishedAt = Some ''2024-01-01T00:00:00Z'', lastCheckedAt = Some ''t2''\<rparr>"
    by (simp add: w sample_pass_found)
  from d a b c show ?thesis by (intro conjI)
qed

subsection \<open>The list of repositories\<close>




end
